theory Spec2Isabelle
  imports Complex_Main "HOL-Library.Word" "HOL-Library.Char_ord" "HOL-Library.List_Lexorder"
    "HOL-Library.Product_Lexorder"
begin

unbundle bit_operations_syntax

section \<open>JavaScript strings\<close>

text \<open>
  A JavaScript string is modelled as a \<^typ>\<open>string\<close>, its characters the code points
  0 to 255. The white space of \<^verbatim>\<open>trim\<close> and of the regular expression class
  \<^verbatim>\<open>\s\<close> is, on these code points, the space, the characters 9 to 13 and the
  no-break space 160.

  \<^verbatim>\<open>toLowerCase\<close> maps the capital letters (A to Z and 192 to 222 but the sign 215) 32
  places up and leaves every other character.

  \<open>upperChar\<close> is the capital of a character where that is one character among the code
  points 0 to 255: the small letters (a to z and 224 to 254 but the sign 247) go 32
  places down. A regular expression with the flag \<^verbatim>\<open>i\<close> compares a character of the
  text with a letter A to Z of the expression by it.
  \<^verbatim>\<open>toUpperCase\<close> takes a text to the capitals of its characters, and the sharp s
  (223) to the two letters \<^verbatim>\<open>SS\<close>. JavaScript takes the micro sign (181) and the
  letter 255 to capitals beyond the code point 255, which a \<^typ>\<open>string\<close> cannot hold:
  \<open>toUpperCase\<close> leaves these two as they are, and a text in which one of them occurs
  is outside of what the model says about capitals (\<open>hasModelCapitals\<close>). The tests
  the extractor makes on a text in capitals (does it start with, does it hold, a word
  written without these two characters) come out the same either way, and so does
  the filter, which blanks every character that is no letter a to z and no digit.
\<close>

definition lowerChar :: "char \<Rightarrow> char" where
  "lowerChar c =
     (let n = (of_char c :: nat) in
      if (65 \<le> n \<and> n \<le> 90) \<or> (192 \<le> n \<and> n \<le> 222 \<and> n \<noteq> 215) then char_of (n + 32)
      else c)"

definition upperChar :: "char \<Rightarrow> char" where
  "upperChar c =
     (let n = (of_char c :: nat) in
      if (97 \<le> n \<and> n \<le> 122) \<or> (224 \<le> n \<and> n \<le> 254 \<and> n \<noteq> 247) then char_of (n - 32)
      else c)"

definition toLowerCase :: "string \<Rightarrow> string" where
  "toLowerCase s = map lowerChar s"

definition toUpperCase :: "string \<Rightarrow> string" where
  "toUpperCase s = concat (map (\<lambda>c. if c = CHR 0xDF then ''SS'' else [upperChar c]) s)"


definition isDigit :: "char \<Rightarrow> bool" where
  "isDigit c = (let n = (of_char c :: nat) in 48 \<le> n \<and> n \<le> 57)"

text \<open>The characters of the class \<^verbatim>\<open>[a-z0-9]\<close>.\<close>

definition isLowerAlnum :: "char \<Rightarrow> bool" where
  "isLowerAlnum c = (let n = (of_char c :: nat) in (97 \<le> n \<and> n \<le> 122) \<or> (48 \<le> n \<and> n \<le> 57))"

definition isSpace :: "char \<Rightarrow> bool" where
  "isSpace c = (let n = (of_char c :: nat) in n = 32 \<or> (9 \<le> n \<and> n \<le> 13) \<or> n = 160)"

definition trim :: "string \<Rightarrow> string" where
  "trim s = rev (dropWhile isSpace (rev (dropWhile isSpace s)))"

text \<open>\<^verbatim>\<open>s.replace(/[class]+/g, r)\<close>: every maximal run of characters of the class
  becomes one copy of \<open>r\<close>.\<close>

function replaceRuns :: "(char \<Rightarrow> bool) \<Rightarrow> string \<Rightarrow> string \<Rightarrow> string" where
  "replaceRuns P r [] = []"
| "replaceRuns P r (c # cs) =
     (if P c then r @ replaceRuns P r (dropWhile P cs) else c # replaceRuns P r cs)"
  by pat_completeness auto
termination
  by (relation "measure (\<lambda>(P, r, s). length s)") (auto simp: length_dropWhile_le less_Suc_eq_le)

text \<open>\<^verbatim>\<open>s.split(sep)\<close> for a separator that is one character of a class: the pieces
  between the separators, empty ones included.\<close>

fun splitChars :: "(char \<Rightarrow> bool) \<Rightarrow> string \<Rightarrow> string list" where
  "splitChars P [] = [[]]"
| "splitChars P (c # cs) =
     (if P c then [] # splitChars P cs
      else (case splitChars P cs of [] \<Rightarrow> [[c]] | w # ws \<Rightarrow> (c # w) # ws))"

text \<open>\<^verbatim>\<open>s.split(sep).filter(Boolean)\<close>: the non-empty pieces. For the separator
  \<^verbatim>\<open>/\s+/\<close> the pieces of a run of separators are the same once the empty ones are
  dropped.\<close>

definition tokens :: "(char \<Rightarrow> bool) \<Rightarrow> string \<Rightarrow> string list" where
  "tokens P s = filter (\<lambda>w. w \<noteq> []) (splitChars P s)"

fun joinWith :: "string \<Rightarrow> string list \<Rightarrow> string" where
  "joinWith sep [] = []"
| "joinWith sep [w] = w"
| "joinWith sep (w # v # ws) = w @ sep @ joinWith sep (v # ws)"

fun startsWith :: "string \<Rightarrow> string \<Rightarrow> bool" where
  "startsWith s [] = True"
| "startsWith [] (p # ps) = False"
| "startsWith (c # cs) (p # ps) = (c = p \<and> startsWith cs ps)"

text \<open>\<^verbatim>\<open>hay.includes(needle)\<close>.\<close>

fun str_includes :: "string \<Rightarrow> string \<Rightarrow> bool" where
  "str_includes [] n = (n = [])"
| "str_includes (c # cs) n = (startsWith (c # cs) n \<or> str_includes cs n)"

text \<open>\<^verbatim>\<open>hay.indexOf(needle)\<close>, \<open>None\<close> for -1.\<close>

fun indexOf :: "string \<Rightarrow> string \<Rightarrow> nat option" where
  "indexOf [] n = (if n = [] then Some 0 else None)"
| "indexOf (c # cs) n =
     (if startsWith (c # cs) n then Some 0 else map_option Suc (indexOf cs n))"

section \<open>The brand and model filter\<close>

text \<open>The text both sides of the filter are reduced to:
  \<^verbatim>\<open>String(v).toLowerCase().replace(/[^a-z0-9]+/g, ' ').trim()\<close>.\<close>

definition normalizeLoose :: "string \<Rightarrow> string" where
  "normalizeLoose v = trim (replaceRuns (\<lambda>c. \<not> isLowerAlnum c) '' '' (toLowerCase v))"

text \<open>\<^verbatim>\<open>App.jsx\<close>, line 55: the filter the user types is cut at the commas,
  \<^verbatim>\<open>scrapeBrandsInput.split(',').map(s => s.trim()).filter(Boolean)\<close>, and the
  array is what the scraper receives as \<^verbatim>\<open>allowedBrands\<close>.\<close>

definition splitBrandsInput :: "string \<Rightarrow> string list" where
  "splitBrandsInput s =
     filter (\<lambda>w. w \<noteq> []) (map trim (splitChars (\<lambda>c. c = CHR '','') s))"

text \<open>\<^verbatim>\<open>normalizeFilterList\<close>: \<open>None\<close> is a value that is not an array.\<close>

definition normalizeFilterList :: "string list option \<Rightarrow> string list list" where
  "normalizeFilterList allowedBrands =
     (case allowedBrands of
        None \<Rightarrow> []
      | Some vs \<Rightarrow>
          filter (\<lambda>ts. length ts > 0)
            (map (\<lambda>v. tokens isSpace v) (map normalizeLoose vs)))"

definition matchesAllowedFilter :: "string list list \<Rightarrow> string \<Rightarrow> string \<Rightarrow> string \<Rightarrow> bool" where
  "matchesAllowedFilter filters linkText brand model =
     (if length filters = 0 then True
      else
        (let haystack = normalizeLoose (linkText @ '' '' @ brand @ '' '' @ model)
         in list_ex (\<lambda>toks. list_all (\<lambda>token. str_includes haystack token) toks) filters))"

section \<open>Brand, model and identifiers\<close>

text \<open>\<^verbatim>\<open>toBrandCase\<close>.\<close>

definition toBrandCase :: "string \<Rightarrow> string" where
  "toBrandCase v =
     (let token = trim v in
      if token = [] then []
      else if length token \<le> 3 then toUpperCase token
      else toUpperCase (take 1 token) @ toLowerCase (drop 1 token))"

text \<open>\<^verbatim>\<open>extractBrandModel\<close>: the first word of the link text is the brand, the rest
  the model.\<close>

definition extractBrandModel :: "string \<Rightarrow> string \<times> string" where
  "extractBrandModel title =
     (let cleaned = trim (replaceRuns isSpace '' '' title) in
      if cleaned = [] then (''Unknown'', ''Unknown'')
      else
        (let ps = tokens (\<lambda>c. c = CHR '' '') cleaned;
             brand = toBrandCase (case ps of [] \<Rightarrow> [] | p # _ \<Rightarrow> p);
             model = trim (joinWith '' '' (drop 1 ps))
         in (if brand = [] then ''Unknown'' else brand,
             if model = [] then ''Unknown'' else model)))"

text \<open>The test both the category walk (lines 190-191) and the model page (lines
  226-230) make on a link.\<close>

definition linkAllowed :: "string list option \<Rightarrow> string \<Rightarrow> bool" where
  "linkAllowed allowedBrands linkText =
     (let (brand, model) = extractBrandModel linkText
      in matchesAllowedFilter (normalizeFilterList allowedBrands) linkText brand model)"

text \<open>\<^verbatim>\<open>generateId\<close>: the MD5 digest of the text, written as 32 hexadecimal
  digits. The digest function of Node's \<^verbatim>\<open>crypto\<close> is a parameter, the 128-bit
  digest of a text; writing it in hexadecimal is modelled.\<close>

definition hexDigit :: "nat \<Rightarrow> char" where
  "hexDigit n = (''0123456789abcdef'' ! (n mod 16))"

definition hexDigest :: "128 word \<Rightarrow> string" where
  "hexDigest w = map (\<lambda>i. hexDigit (unat (drop_bit (4 * (31 - i)) w AND 15))) [0..<32]"

definition generateId :: "(string \<Rightarrow> 128 word) \<Rightarrow> string \<Rightarrow> string" where
  "generateId digest txt = hexDigest (digest txt)"


section \<open>The environment\<close>

text \<open>
  What the scraper takes from Node, from its libraries and from the network is a
  parameter of the model:
  \<^item> \<open>md5\<close>: the MD5 digest of a text;
  \<^item> \<open>url_pathname u\<close>: \<^verbatim>\<open>decodeURIComponent(new URL(u).pathname)\<close>, \<open>None\<close> when
    either throws;
  \<^item> \<open>url_join src base\<close>: \<^verbatim>\<open>new URL(src, new URL(base)).toString()\<close>, \<open>None\<close> when
    it throws;
  \<^item> \<open>url_strip_hash u\<close>: \<^verbatim>\<open>new URL(u)\<close> with its hash cleared, as a string, \<open>None\<close>
    when it throws;
  \<^item> \<open>head_size u\<close>: what \<^verbatim>\<open>getRemoteImageSize\<close> returns, the content length of the
    HEAD response, \<open>None\<close> when the request fails or the header is missing or is no
    number;
  \<^item> \<open>get_body u\<close>: the bytes the GET request returns, \<open>None\<close> when it fails;
  \<^item> \<open>now_ms\<close>: \<^verbatim>\<open>Date.now()\<close>;
  \<^item> \<open>local_time\<close>: what \<^verbatim>\<open>toDbLocalTimestamp\<close> returns, the local time as
    \<^verbatim>\<open>YYYY-MM-DD HH:MM:SS\<close>.
\<close>

type_synonym bytes = "8 word list"

record env =
  md5 :: "string \<Rightarrow> 128 word"
  url_pathname :: "string \<Rightarrow> string option"
  url_join :: "string \<Rightarrow> string \<Rightarrow> string option"
  url_strip_hash :: "string \<Rightarrow> string option"
  head_size :: "string \<Rightarrow> nat option"
  get_body :: "string \<Rightarrow> bytes option"
  now_ms :: nat
  local_time :: string

section \<open>The stored data\<close>

text \<open>
  The tables of \<^verbatim>\<open>database.js\<close>, each a list of rows in the order of insertion. A
  column declared \<^verbatim>\<open>NOT NULL\<close> holds a value, any other an option. Left out are
  the columns no statement of the scraper reads or writes (\<^verbatim>\<open>condition\<close>,
  \<^verbatim>\<open>created_at\<close>, \<^verbatim>\<open>motorcycles.last_updated\<close>) and the identifier of a history
  row, the hash of a fresh random UUID. \<^verbatim>\<open>is_deleted\<close> has the default 0 and is only
  ever written as 0 or 1: it is an integer.
\<close>

record motorcycle_row =
  m_id :: string
  m_brand :: string
  m_model :: string
  m_category :: string
  m_url :: string

record part_row =
  p_id :: string
  p_motorcycle_id :: string
  p_name :: string
  p_part_number :: string
  p_description :: "string option"
  p_price :: "real option"
  p_currency :: "string option"
  p_image_url :: "string option"
  p_image_path :: "string option"
  p_url :: string
  p_scraped_at :: "string option"
  p_last_seen :: "string option"
  p_is_deleted :: int
  p_deleted_at :: "string option"

record history_row =
  h_part_id :: string
  h_motorcycle_id :: string
  h_name :: string
  h_part_number :: string
  h_description :: "string option"
  h_price :: "real option"
  h_currency :: "string option"
  h_image_url :: "string option"
  h_image_path :: "string option"
  h_url :: string
  h_history_event :: string
  h_is_deleted :: int
  h_deleted_at :: "string option"
  h_recorded_at :: string

record image_row =
  i_part_id :: string
  i_image_url :: string
  i_image_path :: "string option"
  i_sort_order :: nat

text \<open>A network call or a delay that has begun.\<close>

datatype action =
    FetchPage string
  | ProbeImage string
  | DownloadImage string
  | Wait nat

text \<open>
  The state the scraper works on: the four tables, the files under the data directory
  (by their path from it, \<^verbatim>\<open>images/...\<close>), the calls begun so far, oldest first, and
  the lines written with \<^verbatim>\<open>console.error\<close>.
\<close>

record world =
  motorcycles :: "motorcycle_row list"
  parts :: "part_row list"
  parts_history :: "history_row list"
  part_images :: "image_row list"
  files :: "string \<Rightarrow> bytes option"
  began :: "action list"
  errors :: "string list"

section \<open>The asset synchronizer\<close>

text \<open>\<^verbatim>\<open>getLocalImagePathFromUrl\<close>.\<close>

definition getLocalImagePathFromUrl :: "env \<Rightarrow> string \<Rightarrow> string option" where
  "getLocalImagePathFromUrl e imageUrl =
     (case url_pathname e imageUrl of
        None \<Rightarrow> None
      | Some pathname \<Rightarrow>
          (let normalized = map (\<lambda>c. if c = CHR 0x5C then CHR ''/'' else c) pathname;
               marker = ''/images/'';
               relative =
                 (case indexOf (toLowerCase normalized) marker of
                    Some idx \<Rightarrow> drop (idx + length marker) normalized
                  | None \<Rightarrow> dropWhile (\<lambda>c. c = CHR ''/'') normalized);
               safeRelative =
                 joinWith ''/''
                   (filter (\<lambda>seg. seg \<noteq> ''.'' \<and> seg \<noteq> ''..'')
                     (tokens (\<lambda>c. c = CHR ''/'') relative))
           in if safeRelative = [] then None else Some safeRelative))"

function showNat :: "nat \<Rightarrow> string" where
  "showNat n =
     (if n < 10 then [hexDigit n] else showNat (n div 10) @ [hexDigit (n mod 10)])"
  by pat_completeness auto
termination
  by (relation "measure id") auto

text \<open>\<^verbatim>\<open>path.basename\<close> and the parts \<^verbatim>\<open>path.parse\<close> gives, for a relative path
  whose segments are not empty and are joined by \<^verbatim>\<open>/\<close>.\<close>

definition path_basename :: "string \<Rightarrow> string" where
  "path_basename p = (case rev (splitChars (\<lambda>c. c = CHR ''/'') p) of [] \<Rightarrow> [] | b # _ \<Rightarrow> b)"

definition path_dirname :: "string \<Rightarrow> string" where
  "path_dirname p = joinWith ''/'' (butlast (splitChars (\<lambda>c. c = CHR ''/'') p))"

text \<open>The extension starts at the last dot of the base name, unless that dot is its
  first character.\<close>

definition path_ext :: "string \<Rightarrow> string" where
  "path_ext p =
     (let b = path_basename p; k = length (takeWhile (\<lambda>c. c \<noteq> CHR ''.'') (rev b))
      in if k < length b \<and> Suc k < length b then drop (length b - Suc k) b else [])"

definition path_name :: "string \<Rightarrow> string" where
  "path_name p = (let b = path_basename p in take (length b - length (path_ext p)) b)"

text \<open>The backup path of lines 144-153:
  \<^verbatim>\<open>images/_history/<dir>/<name>__<Date.now()><ext>\<close>.\<close>

definition historyPath :: "nat \<Rightarrow> string \<Rightarrow> string" where
  "historyPath now relative =
     ''images/'' @
       joinWith ''/''
         (filter (\<lambda>seg. seg \<noteq> [])
            [''_history'', path_dirname relative,
             path_name relative @ ''__'' @ showNat now @ path_ext relative])"

record download =
  dl_filename :: string
  dl_filepath :: string
  dl_size :: nat
  dl_status :: string
  dl_previous_filepath :: "string option"

text \<open>
  \<^verbatim>\<open>downloadImage\<close>. Every exception inside is caught, written with
  \<^verbatim>\<open>console.error\<close> and turned into the result \<^verbatim>\<open>null\<close>. The file system calls
  (\<^verbatim>\<open>mkdir\<close>, \<^verbatim>\<open>copyFile\<close>, \<^verbatim>\<open>writeFile\<close>) succeed in the model.
\<close>

definition downloadImage :: "env \<Rightarrow> world \<Rightarrow> string \<Rightarrow> world \<times> download option" where
  "downloadImage e w imageUrl =
     (case getLocalImagePathFromUrl e imageUrl of
        None \<Rightarrow>
          (w\<lparr>errors := errors w @ [''Failed to download image from '' @ imageUrl]\<rparr>, None)
      | Some relative \<Rightarrow>
          (let displayPath = ''images/'' @ relative;
               localSize = map_option length (files w displayPath);
               w1 = w\<lparr>began := began w @ [ProbeImage imageUrl]\<rparr>;
               remoteSize = head_size e imageUrl
           in if localSize \<noteq> None \<and> remoteSize \<noteq> None \<and> localSize = remoteSize then
                (w1, Some \<lparr>dl_filename = path_basename relative, dl_filepath = displayPath,
                           dl_size = the localSize, dl_status = ''skipped_unchanged'',
                           dl_previous_filepath = None\<rparr>)
              else
                (let w2 = w1\<lparr>began := began w1 @ [DownloadImage imageUrl]\<rparr> in
                 case get_body e imageUrl of
                   None \<Rightarrow>
                     (w2\<lparr>errors := errors w2 @ [''Failed to download image from '' @ imageUrl]\<rparr>,
                      None)
                 | Some body \<Rightarrow>
                     if localSize \<noteq> None \<and> localSize = Some (length body) then
                       (w2, Some \<lparr>dl_filename = path_basename relative,
                                  dl_filepath = displayPath, dl_size = the localSize,
                                  dl_status = ''skipped_unchanged'',
                                  dl_previous_filepath = None\<rparr>)
                     else
                       (case files w displayPath of
                          None \<Rightarrow>
                            (w2\<lparr>files := (files w2)(displayPath \<mapsto> body)\<rparr>,
                             Some \<lparr>dl_filename = path_basename relative,
                                   dl_filepath = displayPath, dl_size = length body,
                                   dl_status = ''downloaded_new'',
                                   dl_previous_filepath = None\<rparr>)
                        | Some old \<Rightarrow>
                            (let previousFilepath = historyPath (now_ms e) relative in
                             (w2\<lparr>files := ((files w2)(previousFilepath \<mapsto> old))
                                              (displayPath \<mapsto> body)\<rparr>,
                              Some \<lparr>dl_filename = path_basename relative,
                                    dl_filepath = displayPath, dl_size = length body,
                                    dl_status = ''downloaded_updated'',
                                    dl_previous_filepath = Some previousFilepath\<rparr>))))))"


text \<open>A JavaScript \<^verbatim>\<open>Set\<close> built from a list: the first occurrence of each element,
  in order.\<close>

definition uniq :: "'a list \<Rightarrow> 'a list" where
  "uniq xs = rev (remdups (rev xs))"

text \<open>\<^verbatim>\<open>s || null\<close> and \<^verbatim>\<open>v || ''\<close> for a text that may be null.\<close>

definition orNull :: "string \<Rightarrow> string option" where
  "orNull s = (if s = [] then None else Some s)"

definition orEmpty :: "string option \<Rightarrow> string" where
  "orEmpty v = (case v of None \<Rightarrow> [] | Some s \<Rightarrow> s)"

definition truthy :: "string option \<Rightarrow> bool" where
  "truthy v = (orEmpty v \<noteq> [])"

record image_result =
  r_url :: string
  r_path :: string
  r_size :: "nat option"
  r_status :: string
  r_previousPath :: "string option"

text \<open>\<^verbatim>\<open>INSERT OR IGNORE INTO part_images\<close>: the row is dropped when the table holds
  one with its part and URL (\<^verbatim>\<open>UNIQUE(part_id, image_url)\<close>).\<close>

definition insertImageOrIgnore :: "world \<Rightarrow> image_row \<Rightarrow> world" where
  "insertImageOrIgnore w r =
     (if list_ex (\<lambda>x. i_part_id x = i_part_id r \<and> i_image_url x = i_image_url r) (part_images w)
      then w
      else w\<lparr>part_images := part_images w @ [r]\<rparr>)"

definition updateImagePath :: "world \<Rightarrow> string \<Rightarrow> string \<Rightarrow> string \<Rightarrow> world" where
  "updateImagePath w partId imageUrl imagePath =
     w\<lparr>part_images :=
         map (\<lambda>x. if i_part_id x = partId \<and> i_image_url x = imageUrl
                  then x\<lparr>i_image_path := Some imagePath\<rparr> else x)
           (part_images w)\<rparr>"

text \<open>The loop of \<^verbatim>\<open>syncPartImages\<close>, \<open>i\<close> the index of the URL.\<close>

fun syncLoop ::
  "env \<Rightarrow> bool \<Rightarrow> string \<Rightarrow> nat \<Rightarrow> string list \<Rightarrow> world \<Rightarrow> world \<times> image_result list" where
  "syncLoop e downloadImages partId i [] w = (w, [])"
| "syncLoop e downloadImages partId i (imageUrl # rest) w =
     (let (w1, dl) = (if downloadImages then downloadImage e w imageUrl else (w, None));
          got = (case dl of
                   None \<Rightarrow> None
                 | Some d \<Rightarrow> if dl_filepath d \<noteq> [] then Some d else None);
          imagePath = map_option dl_filepath got;
          w2 = insertImageOrIgnore w1
                 \<lparr>i_part_id = partId, i_image_url = imageUrl, i_image_path = imagePath,
                  i_sort_order = i\<rparr>;
          w3 = (case imagePath of
                  None \<Rightarrow> w2
                | Some p \<Rightarrow> updateImagePath w2 partId imageUrl p);
          res = (case got of
                   None \<Rightarrow> []
                 | Some d \<Rightarrow>
                     if dl_status d \<noteq> [] then
                       [\<lparr>r_url = imageUrl, r_path = dl_filepath d, r_size = Some (dl_size d),
                         r_status = dl_status d,
                         r_previousPath =
                           (if truthy (dl_previous_filepath d) then dl_previous_filepath d
                            else None)\<rparr>]
                     else []);
          (w4, more) = syncLoop e downloadImages partId (Suc i) rest w3
      in (w4, res @ more))"

definition syncPartImages ::
  "env \<Rightarrow> world \<Rightarrow> string \<Rightarrow> string list \<Rightarrow> bool \<Rightarrow> world \<times> image_result list" where
  "syncPartImages e w partId imageUrls downloadImages =
     syncLoop e downloadImages partId 0 (uniq (filter (\<lambda>u. u \<noteq> []) imageUrls)) w"

section \<open>The change tracker\<close>

text \<open>A part as the extractor hands it over.\<close>

record part =
  pt_name :: string
  pt_partNumber :: string
  pt_description :: string
  pt_price :: real
  pt_currency :: string
  pt_imageUrl :: "string option"
  pt_imageUrls :: "string list"

text \<open>
  \<^verbatim>\<open>INSERT INTO parts\<close>, with the value bound to \<^verbatim>\<open>part_number\<close> apart: the statement
  fails (\<open>None\<close>) when that value is \<^verbatim>\<open>NULL\<close>, the column being \<^verbatim>\<open>NOT NULL\<close>, and
  when a row has the identifier, the primary key. The columns the statement leaves
  out take their defaults.
\<close>

definition insertPart :: "world \<Rightarrow> part_row \<Rightarrow> string option \<Rightarrow> world option" where
  "insertPart w r part_number =
     (case part_number of
        None \<Rightarrow> None
      | Some pn \<Rightarrow>
          if list_ex (\<lambda>x. p_id x = p_id r) (parts w) then None
          else Some (w\<lparr>parts := parts w @ [r\<lparr>p_part_number := pn\<rparr>]\<rparr>))"

text \<open>The sub-query of the last \<^verbatim>\<open>UPDATE\<close>: the local path of the image row of the
  part whose URL is the part's own, the least \<^verbatim>\<open>sort_order\<close> first.\<close>

definition storedImagePath :: "world \<Rightarrow> part_row \<Rightarrow> string option" where
  "storedImagePath w r =
     (case filter (\<lambda>x. i_part_id x = p_id r \<and> Some (i_image_url x) = p_image_url r
                         \<and> i_image_path x \<noteq> None) (part_images w) of
        [] \<Rightarrow> None
      | x # xs \<Rightarrow>
          i_image_path (foldl (\<lambda>b y. if i_sort_order y < i_sort_order b then y else b) x xs))"

text \<open>The last \<^verbatim>\<open>UPDATE\<close> of both branches (lines 456-473 and 540-557).\<close>

definition finalizePart :: "world \<Rightarrow> string \<Rightarrow> string \<Rightarrow> world" where
  "finalizePart w scrapeTimestamp partId =
     w\<lparr>parts :=
         map (\<lambda>r. if p_id r = partId then
                    r\<lparr>p_image_path :=
                        (case storedImagePath w r of
                           Some p \<Rightarrow> Some p
                         | None \<Rightarrow> p_image_path r),
                      p_last_seen := Some scrapeTimestamp,
                      p_is_deleted := 0,
                      p_deleted_at := None\<rparr>
                  else r)
           (parts w)\<rparr>"

text \<open>The keys of \<^verbatim>\<open>changes\<close> (lines 480-484).\<close>

definition changedFields :: "part_row \<Rightarrow> part \<Rightarrow> string list" where
  "changedFields existing p =
     (if (case p_price existing of None \<Rightarrow> 0 | Some x \<Rightarrow> x) \<noteq> pt_price p then [''price''] else []) @
     (if p_name existing \<noteq> pt_name p then [''name''] else []) @
     (if orEmpty (p_description existing) \<noteq> pt_description p then [''description''] else []) @
     (if orEmpty (p_image_url existing) \<noteq> orEmpty (pt_imageUrl p) then [''image''] else [])"

text \<open>Lines 489-498: the backup of the primary image, when its content changed.\<close>

definition primaryImageBackup :: "part_row \<Rightarrow> image_result list \<Rightarrow> image_result option" where
  "primaryImageBackup existing imageResults =
     find (\<lambda>img. r_status img = ''downloaded_updated'' \<and> truthy (r_previousPath img) \<and>
                 ((truthy (p_image_url existing) \<and> Some (r_url img) = p_image_url existing) \<or>
                  (truthy (p_image_path existing) \<and> Some (r_path img) = p_image_path existing)))
       imageResults"

definition historyImagePath :: "part_row \<Rightarrow> image_result list \<Rightarrow> string option" where
  "historyImagePath existing imageResults =
     (case primaryImageBackup existing imageResults of
        Some b \<Rightarrow> r_previousPath b
      | None \<Rightarrow> p_image_path existing)"

text \<open>The branch of a part with a stored row (lines 478-560). No statement of it can
  fail on a constraint: the history row takes its \<^verbatim>\<open>NOT NULL\<close> columns from
  \<^verbatim>\<open>NOT NULL\<close> columns of the stored row.\<close>

definition updateExisting ::
  "env \<Rightarrow> string \<Rightarrow> bool \<Rightarrow> string \<Rightarrow> world \<Rightarrow> part_row \<Rightarrow> part \<Rightarrow> world" where
  "updateExisting e pageUrl downloadImages scrapeTimestamp w existing p =
     (let changes = changedFields existing p;
          (w1, imageResults) = syncPartImages e w (p_id existing) (pt_imageUrls p) downloadImages;
          imageContentChanged =
            list_ex (\<lambda>img. r_status img = ''downloaded_updated'') imageResults;
          statusChanged = (p_is_deleted existing \<noteq> 0);
          w2 =
            (if length changes > 0 \<or> imageContentChanged \<or> statusChanged then
               (let w' = w1\<lparr>parts_history := parts_history w1 @
                            [\<lparr>h_part_id = p_id existing,
                              h_motorcycle_id = p_motorcycle_id existing,
                              h_name = p_name existing,
                              h_part_number = p_part_number existing,
                              h_description = p_description existing,
                              h_price = p_price existing,
                              h_currency = p_currency existing,
                              h_image_url = p_image_url existing,
                              h_image_path = historyImagePath existing imageResults,
                              h_url = p_url existing,
                              h_history_event = (if statusChanged then ''restored'' else ''updated''),
                              h_is_deleted = p_is_deleted existing,
                              h_deleted_at = orNull (orEmpty (p_deleted_at existing)),
                              h_recorded_at = scrapeTimestamp\<rparr>]\<rparr>
                in w'\<lparr>parts :=
                       map (\<lambda>r. if p_id r = p_id existing then
                                  r\<lparr>p_name := pt_name p,
                                    p_description := Some (pt_description p),
                                    p_price := Some (pt_price p),
                                    p_currency := Some (pt_currency p),
                                    p_image_url :=
                                      (if truthy (pt_imageUrl p) then pt_imageUrl p
                                       else p_image_url existing),
                                    p_image_path := p_image_path existing,
                                    p_url := pageUrl,
                                    p_scraped_at := Some scrapeTimestamp\<rparr>
                                else r)
                         (parts w')\<rparr>)
             else w1)
      in finalizePart w2 scrapeTimestamp (p_id existing))"

text \<open>One turn of the loop over the parts of a page (lines 427-562): the state is the
  world and \<^verbatim>\<open>seenPartIds\<close>. A failed insert is caught and nothing is written (line
  474).\<close>

definition trackPart ::
  "env \<Rightarrow> string \<Rightarrow> string \<Rightarrow> bool \<Rightarrow> string \<Rightarrow> world \<times> string list \<Rightarrow> part
     \<Rightarrow> world \<times> string list" where
  "trackPart e motorcycleId pageUrl downloadImages scrapeTimestamp st p =
     (let (w, seenPartIds) = st;
          idSeed = (if pt_partNumber p \<noteq> [] then pt_partNumber p else pt_name p);
          partId = generateId (md5 e) (motorcycleId @ ''-'' @ idSeed);
          seen = seenPartIds @ [partId];
          existing =
            (if pt_partNumber p \<noteq> [] then
               find (\<lambda>r. p_motorcycle_id r = motorcycleId \<and> p_part_number r = pt_partNumber p)
                 (parts w)
             else
               find (\<lambda>r. p_motorcycle_id r = motorcycleId \<and> p_name r = pt_name p) (parts w))
      in case existing of
           None \<Rightarrow>
             (case insertPart w
                     \<lparr>p_id = partId, p_motorcycle_id = motorcycleId, p_name = pt_name p,
                      p_part_number = [], p_description = Some (pt_description p),
                      p_price = Some (pt_price p), p_currency = Some (pt_currency p),
                      p_image_url = orNull (orEmpty (pt_imageUrl p)), p_image_path = None,
                      p_url = pageUrl, p_scraped_at = Some scrapeTimestamp,
                      p_last_seen = None, p_is_deleted = 0, p_deleted_at = None\<rparr>
                     (orNull (pt_partNumber p)) of
                None \<Rightarrow> (w, seen)
              | Some w1 \<Rightarrow>
                  (let (w2, imageResults) =
                         syncPartImages e w1 partId (pt_imageUrls p) downloadImages
                   in (finalizePart w2 scrapeTimestamp partId, seen)))
         | Some ex \<Rightarrow>
             (updateExisting e pageUrl downloadImages scrapeTimestamp w ex p, seen))"

definition trackParts ::
  "env \<Rightarrow> string \<Rightarrow> string \<Rightarrow> bool \<Rightarrow> string \<Rightarrow> world \<Rightarrow> part list \<Rightarrow> world \<times> string list" where
  "trackParts e motorcycleId pageUrl downloadImages scrapeTimestamp w ps =
     foldl (trackPart e motorcycleId pageUrl downloadImages scrapeTimestamp) (w, []) ps"

subsection \<open>Tombstone reconciliation\<close>

text \<open>The rows the two \<^verbatim>\<open>SELECT\<close> statements of \<^verbatim>\<open>markDeletedParts\<close> return (lines
  650-671), and the test of the \<^verbatim>\<open>UPDATE\<close> statements (lines 727-751).\<close>

definition unseenLive :: "string \<Rightarrow> string list \<Rightarrow> part_row \<Rightarrow> bool" where
  "unseenLive motorcycleId seenPartIds r =
     (if length seenPartIds > 0 then
        p_motorcycle_id r = motorcycleId \<and> p_id r \<notin> set seenPartIds \<and> p_is_deleted r = 0
      else p_motorcycle_id r = motorcycleId \<and> p_is_deleted r = 0)"

definition deletedRows :: "world \<Rightarrow> string \<Rightarrow> string list \<Rightarrow> part_row list" where
  "deletedRows w motorcycleId seenPartIds =
     sort_key (\<lambda>r. (p_name r, p_id r)) (filter (unseenLive motorcycleId seenPartIds) (parts w))"

text \<open>The history row of a part that left its page (lines 695-715). The value bound
  to \<^verbatim>\<open>url\<close> is \<^verbatim>\<open>row.url || null\<close>.\<close>

definition deletedSnapshot :: "string \<Rightarrow> string \<Rightarrow> part_row \<Rightarrow> string \<Rightarrow> history_row" where
  "deletedSnapshot motorcycleId scrapeTimestamp row u =
     \<lparr>h_part_id = p_id row, h_motorcycle_id = motorcycleId, h_name = p_name row,
      h_part_number = p_part_number row,
      h_description = Some (orEmpty (p_description row)),
      h_price = p_price row,
      h_currency = Some (if truthy (p_currency row) then orEmpty (p_currency row) else ''EUR''),
      h_image_url = orNull (orEmpty (p_image_url row)),
      h_image_path = orNull (orEmpty (p_image_path row)),
      h_url = u,
      h_history_event = ''deleted'',
      h_is_deleted = p_is_deleted row,
      h_deleted_at = orNull (orEmpty (p_deleted_at row)),
      h_recorded_at = scrapeTimestamp\<rparr>"

text \<open>The loop of lines 693-725. The insert of a row whose \<^verbatim>\<open>url\<close> is empty binds
  \<^verbatim>\<open>NULL\<close> to a \<^verbatim>\<open>NOT NULL\<close> column and throws: the loop ends there (\<open>False\<close>).\<close>

fun archiveRows :: "string \<Rightarrow> string \<Rightarrow> part_row list \<Rightarrow> world \<Rightarrow> world \<times> bool" where
  "archiveRows motorcycleId scrapeTimestamp [] w = (w, True)"
| "archiveRows motorcycleId scrapeTimestamp (row # rows) w =
     (case orNull (p_url row) of
        None \<Rightarrow> (w, False)
      | Some u \<Rightarrow>
          archiveRows motorcycleId scrapeTimestamp rows
            (w\<lparr>parts_history := parts_history w @
                 [deletedSnapshot motorcycleId scrapeTimestamp row u]\<rparr>))"

text \<open>\<^verbatim>\<open>markDeletedParts\<close>: the world it leaves, and whether it returned (\<open>True\<close>) or
  threw.\<close>

definition markDeletedParts :: "env \<Rightarrow> world \<Rightarrow> string \<Rightarrow> string list \<Rightarrow> string \<Rightarrow> world \<times> bool" where
  "markDeletedParts e w motorcycleId seenPartIds scrapeTimestampInput =
     (let scrapeTimestamp =
            (if scrapeTimestampInput \<noteq> [] then scrapeTimestampInput else local_time e);
          rows = deletedRows w motorcycleId seenPartIds
      in if length rows = 0 then (w, True)
         else
           (case archiveRows motorcycleId scrapeTimestamp rows w of
              (w1, False) \<Rightarrow> (w1, False)
            | (w1, True) \<Rightarrow>
                (w1\<lparr>parts :=
                      map (\<lambda>r. if unseenLive motorcycleId seenPartIds r
                               then r\<lparr>p_is_deleted := 1, p_deleted_at := Some scrapeTimestamp\<rparr>
                               else r)
                        (parts w1)\<rparr>, True)))"


section \<open>The record extractor\<close>

text \<open>
  The parsed page as the queries of \<^verbatim>\<open>scrapeParts\<close> see it: the tables
  (\<^verbatim>\<open>$('table')\<close>), for each its rows (\<^verbatim>\<open>find('tr')\<close>) and its images
  (\<^verbatim>\<open>find('img')\<close>), for each row the texts of its cells (\<^verbatim>\<open>find('td')\<close>) and its
  images. An image has its \<^verbatim>\<open>src\<close>, the \<^verbatim>\<open>href\<close> of the link around it and its
  \<^verbatim>\<open>alt\<close>, each empty when absent (the code reads them with \<^verbatim>\<open>|| ''\<close>).
\<close>

record img_el =
  img_src :: string
  img_parent_href :: string
  img_alt :: string

record row_el =
  row_cells :: "string list"
  row_imgs :: "img_el list"

record table_el =
  t_rows :: "row_el list"
  t_imgs :: "img_el list"

type_synonym page = "table_el list"

text \<open>Lines 277-278: no-break spaces become spaces, runs of white space one space,
  and the ends are trimmed.\<close>

definition cleanText :: "string \<Rightarrow> string" where
  "cleanText v =
     trim (replaceRuns isSpace '' '' (map (\<lambda>c. if c = CHR 0xA0 then CHR '' '' else c) v))"

definition cellTexts :: "row_el \<Rightarrow> string list" where
  "cellTexts r = map cleanText (row_cells r)"

text \<open>\<^verbatim>\<open>/^OSA$/i.test(t)\<close>.\<close>

definition isOsa :: "string \<Rightarrow> bool" where
  "isOsa t = (map upperChar t = ''OSA'')"

definition hasOsa :: "string list \<Rightarrow> bool" where
  "hasOsa texts = list_ex (\<lambda>t. isOsa t \<or> startsWith (toUpperCase t) ''OSA'') texts"

text \<open>Line 297: the last cell that is neither empty nor a run of dashes.\<close>

definition blockName :: "string list \<Rightarrow> string" where
  "blockName texts =
     (case find (\<lambda>t. t \<noteq> [] \<and> \<not> list_all (\<lambda>c. c = CHR ''-'') t) (rev texts) of
        Some t \<Rightarrow> t
      | None \<Rightarrow> [])"

text \<open>The first match of a regular expression in a text: \<open>f\<close> matches at the start
  of a text and gives the captured group.\<close>

fun firstMatch :: "(string \<Rightarrow> string option) \<Rightarrow> string \<Rightarrow> string option" where
  "firstMatch f [] = f []"
| "firstMatch f (c # cs) = (case f (c # cs) of Some m \<Rightarrow> Some m | None \<Rightarrow> firstMatch f cs)"

text \<open>\<^verbatim>\<open>/(\d+(?:[,\.]\d{1,2})?)\s*EUR/\<close> at the start of a text. The digits are taken
  greedily; with fewer digits the expression cannot match, since a digit follows.\<close>

definition wsThenEUR :: "string \<Rightarrow> bool" where
  "wsThenEUR s = startsWith (dropWhile isSpace s) ''EUR''"

definition matchPriceAt :: "string \<Rightarrow> string option" where
  "matchPriceAt s =
     (let ds = takeWhile isDigit s; rest = dropWhile isDigit s in
      if ds = [] then None
      else
        (case rest of
           [] \<Rightarrow> None
         | c # r \<Rightarrow>
             (let fd = takeWhile isDigit (take 2 r) in
              if (c = CHR '','' \<or> c = CHR ''.'') \<and> fd \<noteq> [] \<and> wsThenEUR (drop (length fd) r)
              then Some (ds @ [c] @ fd)
              else if wsThenEUR rest then Some ds
              else None)))"

definition intOfDigits :: "string \<Rightarrow> int" where
  "intOfDigits ds = foldl (\<lambda>a c. 10 * a + (of_char c - 48)) 0 ds"

text \<open>The number of binary digits of a positive number.\<close>

function bitLength :: "int \<Rightarrow> nat" where
  "bitLength n = (if n \<le> 0 then 0 else Suc (bitLength (n div 2)))"
  by pat_completeness auto
termination
  by (relation "measure nat") auto

text \<open>
  A JavaScript number is a double. \<^verbatim>\<open>parseFloat\<close> gives the double nearest to the
  decimal it reads, all its digits counted, a tie going to the even mantissa, and
  \<^verbatim>\<open>Infinity\<close> when that is 2 to the power 1024 or more. A double is held as the real number it is, and 2 to
  the power 1024 stands for \<^verbatim>\<open>Infinity\<close>: the scraper tests a price against 0,
  compares two prices and stores them, and does nothing else with one.

  \<open>nearestDouble n d\<close> is the double nearest to the fraction of \<open>n\<close> over \<open>d\<close>: the
  exponent \<open>s\<close> is the one that brings the fraction between 2 to the power 52 and 2
  to the power 53, the mantissa \<open>q\<close> is the fraction so scaled, rounded to the nearest
  whole number and to the even one of two equally near, and the double is \<open>q\<close> times 2
  to the power \<open>s\<close>. The decimals a price is read from are 0 or at least 0.01, so
  none falls among the subnormal doubles.
\<close>

definition nearestDouble :: "int \<Rightarrow> int \<Rightarrow> real" where
  "nearestDouble n d =
     (if n \<le> 0 \<or> d \<le> 0 then 0
      else
        (let s0 = int (bitLength n) - int (bitLength d) - 53;
             s = (if (if s0 < 0 then n * 2 ^ nat (- s0) else n)
                       < 2 ^ 53 * (if s0 < 0 then d else d * 2 ^ nat s0)
                  then s0 else s0 + 1);
             num = (if s < 0 then n * 2 ^ nat (- s) else n);
             den = (if s < 0 then d else d * 2 ^ nat s);
             fl = num div den;
             r = num mod den;
             q = (if 2 * r < den then fl
                  else if den < 2 * r then fl + 1
                  else if even fl then fl else fl + 1);
             x = (if s < 0 then real_of_int q / 2 ^ nat (- s) else real_of_int q * 2 ^ nat s)
         in if 971 < s \<or> (s = 971 \<and> q = 2 ^ 53) then 2 ^ 1024 else x))"

text \<open>\<^verbatim>\<open>parseFloat(match[1].replace(',', '.'))\<close>: the match is a run of digits, or a run
  of digits, a comma or a dot, and one or two digits.\<close>

definition parsePrice :: "string \<Rightarrow> real" where
  "parsePrice m =
     (let ip = takeWhile isDigit m; fp = drop (Suc (length ip)) m
      in nearestDouble (intOfDigits ip * 10 ^ length fp + intOfDigits fp) (10 ^ length fp))"

text \<open>\<^verbatim>\<open>/OSANRO\s*[:\-]?\s*([A-Z0-9._-]+)/i\<close> at the start of a text.\<close>

definition isPartNoChar :: "char \<Rightarrow> bool" where
  "isPartNoChar c =
     (isDigit c \<or> isLowerAlnum (lowerChar c) \<or> c = CHR ''.'' \<or> c = CHR ''_'' \<or> c = CHR ''-'')"

definition matchOsanroAt :: "string \<Rightarrow> string option" where
  "matchOsanroAt s =
     (if map upperChar (take 6 s) \<noteq> ''OSANRO'' then None
      else
        (let r = dropWhile isSpace (drop 6 s) in
         case r of
           [] \<Rightarrow> None
         | c # r' \<Rightarrow>
             if c = CHR '':'' \<or> c = CHR ''-'' then
               (let cap = takeWhile isPartNoChar (dropWhile isSpace r') in
                if cap \<noteq> [] then Some cap
                else if c = CHR ''-'' then Some (takeWhile isPartNoChar r)
                else None)
             else
               (let cap = takeWhile isPartNoChar r in if cap \<noteq> [] then Some cap else None)))"

text \<open>\<^verbatim>\<open>/RS\d+/\<close> at the start of a text.\<close>

definition matchRSAt :: "string \<Rightarrow> string option" where
  "matchRSAt s =
     (if startsWith s ''RS'' \<and> takeWhile isDigit (drop 2 s) \<noteq> []
      then Some (''RS'' @ takeWhile isDigit (drop 2 s)) else None)"

text \<open>The three fields the rows under a block start fill in (lines 300-339).\<close>

record block_fields =
  bf_partNumber :: string
  bf_description :: string
  bf_price :: real

text \<open>One turn of the inner loop, for a row that does not end the block.\<close>

definition scanRow :: "block_fields \<Rightarrow> row_el \<Rightarrow> block_fields" where
  "scanRow st crow =
     (let ctexts = cellTexts crow in
      if length ctexts = 0 then st
      else
        (let label = toUpperCase (case ctexts of [] \<Rightarrow> [] | t # _ \<Rightarrow> t);
             rowText = trim (joinWith '' '' ctexts);
             direct = (case ctexts of _ # d # _ \<Rightarrow> d | _ \<Rightarrow> []);
             partNumber =
               (if bf_partNumber st = [] \<and> str_includes label ''OSANRO'' then
                  (if direct \<noteq> [] then direct
                   else
                     (case firstMatch matchOsanroAt rowText of
                        Some m \<Rightarrow> if m \<noteq> ''0'' then m else []
                      | None \<Rightarrow> []))
                else bf_partNumber st);
             description =
               (if bf_description st = [] \<and>
                   (str_includes label (''LIS'' @ [CHR 0xC4] @ ''TIEDOT'') \<or>
                    str_includes label ''LISATIEDOT'')
                then (if direct \<noteq> [] then direct else cleanText (joinWith '' '' (drop 1 ctexts)))
                else bf_description st);
             price =
               (case firstMatch matchPriceAt (joinWith '' '' ctexts) of
                  Some m \<Rightarrow> parsePrice m
                | None \<Rightarrow> bf_price st)
         in \<lparr>bf_partNumber = partNumber, bf_description = description, bf_price = price\<rparr>))"

text \<open>Line 313: a row with a cell that reads OSA starts the next block.\<close>

definition isBlockEnd :: "row_el \<Rightarrow> bool" where
  "isBlockEnd r = (length (row_cells r) \<noteq> 0 \<and> list_ex isOsa (cellTexts r))"

definition blockFields :: "row_el list \<Rightarrow> block_fields" where
  "blockFields rows =
     foldl scanRow \<lparr>bf_partNumber = [], bf_description = [], bf_price = 0\<rparr> rows"

text \<open>\<^verbatim>\<open>resolveUrl\<close>.\<close>

definition resolveUrl :: "env \<Rightarrow> string \<Rightarrow> string \<Rightarrow> string option" where
  "resolveUrl e src base =
     (if src = [] then None
      else if startsWith src ''http'' then Some src
      else if startsWith src ''//'' then Some (''https:'' @ src)
      else
        (case url_join e src base of
           Some u \<Rightarrow> Some u
         | None \<Rightarrow>
             Some (''https://www.purkuosat.net/'' @
                   (case src of [] \<Rightarrow> [] | c # r \<Rightarrow> if c = CHR ''/'' then r else src))))"

text \<open>\<^verbatim>\<open>if (src) imageCandidates.add(resolveUrl(src, pageUrl))\<close>, the set as the list
  of its elements in the order they came in.\<close>

definition addCandidate :: "env \<Rightarrow> string \<Rightarrow> string list \<Rightarrow> string \<Rightarrow> string list" where
  "addCandidate e pageUrl cands src =
     (if src = [] then cands
      else
        (case resolveUrl e src pageUrl of
           None \<Rightarrow> cands
         | Some u \<Rightarrow> if u \<in> set cands then cands else cands @ [u]))"

record image_pick =
  ip_imageUrl :: string
  ip_imageAlt :: string
  ip_candidates :: "string list"

text \<open>The first image of a row, as both fall-backs take it (lines 362-369 and
  376-384).\<close>

definition pickFirstImage :: "env \<Rightarrow> string \<Rightarrow> image_pick \<Rightarrow> img_el list \<Rightarrow> image_pick" where
  "pickFirstImage e pageUrl pk imgs =
     (case imgs of
        [] \<Rightarrow> pk
      | img # _ \<Rightarrow>
          \<lparr>ip_imageUrl =
             (if img_parent_href img \<noteq> [] then img_parent_href img else img_src img),
           ip_imageAlt = img_alt img,
           ip_candidates =
             addCandidate e pageUrl
               (addCandidate e pageUrl (ip_candidates pk) (img_parent_href img))
               (img_src img)\<rparr>)"

text \<open>Lines 343-387: the images of the whole table first, then those of the row of
  the block start, then those of the first row of the block that has any.\<close>

definition discoverImages ::
  "env \<Rightarrow> string \<Rightarrow> table_el \<Rightarrow> row_el \<Rightarrow> row_el list \<Rightarrow> image_pick" where
  "discoverImages e pageUrl table row blockRows =
     (let tableImgs = t_imgs table;
          cands =
            foldl (\<lambda>cs img.
                     addCandidate e pageUrl (addCandidate e pageUrl cs (img_parent_href img))
                       (img_src img))
              [] tableImgs;
          pk0 = \<lparr>ip_imageUrl = (case cands of [] \<Rightarrow> [] | u # _ \<Rightarrow> u),
                 ip_imageAlt = (case tableImgs of [] \<Rightarrow> [] | img # _ \<Rightarrow> img_alt img),
                 ip_candidates = cands\<rparr>;
          pk1 = (if ip_imageUrl pk0 = [] then pickFirstImage e pageUrl pk0 (row_imgs row)
                 else pk0);
          pk2 = (if ip_imageUrl pk1 = [] then
                   (case find (\<lambda>r2. length (row_imgs r2) > 0) blockRows of
                      None \<Rightarrow> pk1
                    | Some r2 \<Rightarrow> pickFirstImage e pageUrl pk1 (row_imgs r2))
                 else pk1)
      in pk2)"

text \<open>A block: the row of the block start and the rows under it up to the next
  block start. It gives a part when \<^verbatim>\<open>name && price > 0\<close> (line 341) and nothing
  otherwise.\<close>

definition scanBlock :: "env \<Rightarrow> string \<Rightarrow> table_el \<Rightarrow> row_el \<Rightarrow> row_el list \<Rightarrow> part list" where
  "scanBlock e pageUrl table row blockRows =
     (let name = blockName (cellTexts row);
          f = blockFields blockRows
      in if name \<noteq> [] \<and> bf_price f > 0 then
           (let pk = discoverImages e pageUrl table row blockRows in
            [\<lparr>pt_name = trim name,
              pt_partNumber =
                (if bf_partNumber f \<noteq> [] then bf_partNumber f
                 else (case firstMatch matchRSAt (ip_imageAlt pk) of Some m \<Rightarrow> m | None \<Rightarrow> [])),
              pt_description = trim (bf_description f),
              pt_price = bf_price f,
              pt_currency = ''EUR'',
              pt_imageUrl =
                (if ip_imageUrl pk \<noteq> [] then resolveUrl e (ip_imageUrl pk) pageUrl else None),
              pt_imageUrls = ip_candidates pk\<rparr>])
         else [])"

text \<open>The loop over the rows of a table (lines 286-407).\<close>

function scanRows :: "env \<Rightarrow> string \<Rightarrow> table_el \<Rightarrow> row_el list \<Rightarrow> part list" where
  "scanRows e pageUrl table [] = []"
| "scanRows e pageUrl table (row # rest) =
     (if length (row_cells row) = 0 then scanRows e pageUrl table rest
      else if hasOsa (cellTexts row) then
        scanBlock e pageUrl table row (takeWhile (\<lambda>r. \<not> isBlockEnd r) rest) @
        scanRows e pageUrl table (dropWhile (\<lambda>r. \<not> isBlockEnd r) rest)
      else scanRows e pageUrl table rest)"
  by pat_completeness auto
termination
  by (relation "measure (\<lambda>(e, u, t, rows). length rows)")
     (auto simp: length_dropWhile_le less_Suc_eq_le)

definition extractParts :: "env \<Rightarrow> string \<Rightarrow> page \<Rightarrow> part list" where
  "extractParts e pageUrl pg = concat (map (\<lambda>t. scanRows e pageUrl t (t_rows t)) pg)"

text \<open>Lines 411-422: one part for each key, the part number or else the name, in the
  order the keys came in; a later part with the key adds its images.\<close>

definition partKey :: "part \<Rightarrow> string" where
  "partKey p = (if pt_partNumber p \<noteq> [] then pt_partNumber p else pt_name p)"

definition mergePart :: "part list \<Rightarrow> part \<Rightarrow> part list" where
  "mergePart acc p =
     (if list_ex (\<lambda>c. partKey c = partKey p) acc then
        map (\<lambda>c. if partKey c = partKey p then
                   c\<lparr>pt_imageUrls :=
                       uniq (pt_imageUrls c @ pt_imageUrls p @
                             (if truthy (pt_imageUrl p) then [orEmpty (pt_imageUrl p)] else [])),
                     pt_imageUrl :=
                       (if \<not> truthy (pt_imageUrl c) \<and> truthy (pt_imageUrl p)
                        then pt_imageUrl p else pt_imageUrl c)\<rparr>
                 else c)
          acc
      else acc @ [p\<lparr>pt_imageUrls := uniq (pt_imageUrls p)\<rparr>])"

definition uniqueParts :: "part list \<Rightarrow> part list" where
  "uniqueParts ps = foldl mergePart [] ps"

text \<open>\<^verbatim>\<open>scrapeParts\<close>: extraction, then the change tracker.\<close>

definition scrapeParts ::
  "env \<Rightarrow> world \<Rightarrow> page \<Rightarrow> string \<Rightarrow> string \<Rightarrow> bool \<Rightarrow> string \<Rightarrow> world \<times> string list" where
  "scrapeParts e w pg motorcycleId pageUrl downloadImages scrapeTimestamp =
     trackParts e motorcycleId pageUrl downloadImages scrapeTimestamp w
       (uniqueParts (extractParts e pageUrl pg))"

section \<open>A model page\<close>

record link =
  l_text :: string
  l_href :: string
  l_category :: string

definition normalizeModelUrl :: "env \<Rightarrow> string \<Rightarrow> string" where
  "normalizeModelUrl e url =
     (case url_strip_hash e (trim url) of Some u \<Rightarrow> u | None \<Rightarrow> trim url)"

definition resolveScrapeTimestamp :: "env \<Rightarrow> string \<Rightarrow> string" where
  "resolveScrapeTimestamp e scrapeTimestamp =
     (if scrapeTimestamp \<noteq> [] then scrapeTimestamp else local_time e)"

text \<open>Lines 232-262: the vehicle of the page. A stored vehicle with the URL of the
  page gives its identifier; otherwise the identifier is the hash of brand and
  model.\<close>

definition resolveMotorcycle ::
  "env \<Rightarrow> world \<Rightarrow> link \<Rightarrow> string \<Rightarrow> string \<Rightarrow> string \<Rightarrow> string \<times> world" where
  "resolveMotorcycle e w lnk listingUrl brand model =
     (let motorcycleId = generateId (md5 e) (brand @ ''-'' @ model) in
      case find (\<lambda>m. m_url m = listingUrl) (motorcycles w) of
        Some existingByUrl \<Rightarrow>
          (m_id existingByUrl,
           if m_brand existingByUrl \<noteq> brand \<or> m_model existingByUrl \<noteq> model then
             w\<lparr>motorcycles :=
                 map (\<lambda>m. if m_id m = m_id existingByUrl
                          then m\<lparr>m_brand := brand, m_model := model,
                                 m_category := l_category lnk\<rparr>
                          else m)
                   (motorcycles w)\<rparr>
           else w)
      | None \<Rightarrow>
          (motorcycleId,
           if list_ex (\<lambda>m. m_id m = motorcycleId) (motorcycles w) then
             w\<lparr>motorcycles :=
                 map (\<lambda>m. if m_id m = motorcycleId
                          then m\<lparr>m_brand := brand, m_model := model,
                                 m_category := l_category lnk, m_url := listingUrl\<rparr>
                          else m)
                   (motorcycles w)\<rparr>
           else
             w\<lparr>motorcycles := motorcycles w @
                 [\<lparr>m_id = motorcycleId, m_brand = brand, m_model = model,
                   m_category = l_category lnk, m_url = listingUrl\<rparr>]\<rparr>))"

text \<open>
  The cancellation signal: \<open>Some a\<close> fires once \<open>a\<close> calls have begun and returned,
  \<open>None\<close> never fires. \<^verbatim>\<open>signal.aborted\<close> is read against the calls begun so far.
\<close>

definition aborted :: "nat option \<Rightarrow> world \<Rightarrow> bool" where
  "aborted sig w = (case sig of None \<Rightarrow> False | Some a \<Rightarrow> a \<le> length (began w))"

text \<open>\<^verbatim>\<open>axios.get(url, {signal})\<close>: the call is refused when the signal has fired;
  otherwise it begins and gives what the site answers, \<open>None\<close> when it fails.\<close>

definition fetchObserving ::
  "(string \<Rightarrow> page option) \<Rightarrow> nat option \<Rightarrow> world \<Rightarrow> string \<Rightarrow> world \<times> page option" where
  "fetchObserving site sig w url =
     (if aborted sig w then (w, None)
      else (w\<lparr>began := began w @ [FetchPage url]\<rparr>, site url))"

text \<open>\<^verbatim>\<open>scrapeMotorcyclePage\<close>. Whatever is thrown inside is caught and written with
  \<^verbatim>\<open>console.error\<close> (line 269).\<close>

definition scrapeMotorcyclePage ::
  "env \<Rightarrow> (string \<Rightarrow> page option) \<Rightarrow> nat option \<Rightarrow> world \<Rightarrow> link \<Rightarrow> string list option
     \<Rightarrow> bool \<Rightarrow> string \<Rightarrow> world" where
  "scrapeMotorcyclePage e site sig w lnk allowedBrands downloadImages ts =
     (let scrapeTimestamp = resolveScrapeTimestamp e ts;
          failed = (\<lambda>x. x\<lparr>errors := errors x @ [''Error scraping '' @ l_text lnk]\<rparr>)
      in if aborted sig w then failed w
         else
           (let listingUrl = normalizeModelUrl e (l_href lnk) in
            case fetchObserving site sig w listingUrl of
              (w1, None) \<Rightarrow> failed w1
            | (w1, Some pg) \<Rightarrow>
                (let (brand, model) = extractBrandModel (l_text lnk);
                     filters = normalizeFilterList allowedBrands
                 in if \<not> matchesAllowedFilter filters (l_text lnk) brand model then w1
                    else
                      (let (motorcycleId, w2) =
                             resolveMotorcycle e w1 lnk listingUrl brand model;
                           (w3, seenPartIds) =
                             scrapeParts e w2 pg motorcycleId listingUrl downloadImages
                               scrapeTimestamp
                       in case markDeletedParts e w3 motorcycleId seenPartIds scrapeTimestamp of
                            (w4, True) \<Rightarrow> w4
                          | (w4, False) \<Rightarrow> failed w4))))"

subsection \<open>The walk over the links of a category\<close>

text \<open>\<^verbatim>\<open>waitOrAbort\<close>: no delay for \<open>ms = 0\<close>; a delay that finds the signal fired is
  refused (\<open>False\<close>: it throws); otherwise the delay begins.\<close>

definition waitOrAbort :: "nat \<Rightarrow> nat option \<Rightarrow> world \<Rightarrow> world \<times> bool" where
  "waitOrAbort ms sig w =
     (if ms = 0 then (w, True)
      else if aborted sig w then (w, False)
      else (w\<lparr>began := began w @ [Wait ms]\<rparr>, True))"

text \<open>The loop of \<^verbatim>\<open>scrapeCategoryList\<close> over the links of a category (lines 186-197):
  the world it leaves, and \<open>False\<close> when it ended on \<^verbatim>\<open>Scrape aborted\<close>.\<close>

fun scrapeLinks ::
  "env \<Rightarrow> (string \<Rightarrow> page option) \<Rightarrow> nat option \<Rightarrow> string list option \<Rightarrow> bool \<Rightarrow> string
     \<Rightarrow> link list \<Rightarrow> world \<Rightarrow> world \<times> bool" where
  "scrapeLinks e site sig allowedBrands downloadImages ts [] w = (w, True)"
| "scrapeLinks e site sig allowedBrands downloadImages ts (lnk # rest) w =
     (if aborted sig w then (w, False)
      else if \<not> linkAllowed allowedBrands (l_text lnk) then
        scrapeLinks e site sig allowedBrands downloadImages ts rest w
      else
        (let w1 = scrapeMotorcyclePage e site sig w lnk allowedBrands downloadImages ts in
         case waitOrAbort 500 sig w1 of
           (w2, False) \<Rightarrow> (w2, False)
         | (w2, True) \<Rightarrow> scrapeLinks e site sig allowedBrands downloadImages ts rest w2))"

section \<open>The invariant of a stored part\<close>

text \<open>A part marked as deleted has the time of its deletion.\<close>

definition partInvariant :: "part_row \<Rightarrow> bool" where
  "partInvariant r = (p_is_deleted r = 1 \<longrightarrow> p_deleted_at r \<noteq> None)"

section \<open>Example inputs\<close>

text \<open>The environment of the examples and a world with one stored image. The digest
  of this environment is a stand-in, the length of the text; the examples leave the
  identifiers as the hashes they are. Its site answers no HEAD request with a length
  and serves every image as the two bytes 7 and 8.\<close>

definition ex_env :: env where
  "ex_env =
     \<lparr>md5 = (\<lambda>s. of_nat (length s)),
      url_pathname =
        (\<lambda>u. if startsWith u ''https://www.purkuosat.net'' then Some (drop 25 u) else None),
      url_join = (\<lambda>src base. Some (''https://www.purkuosat.net/'' @ src)),
      url_strip_hash = (\<lambda>u. Some u),
      head_size = (\<lambda>u. None),
      get_body = (\<lambda>u. Some [7, 8]),
      now_ms = 1700,
      local_time = ''2026-01-01 12:00:00''\<rparr>"

definition ex_world :: world where
  "ex_world =
     \<lparr>motorcycles = [], parts = [], parts_history = [], part_images = [],
      files = [''images/MX/a.jpg'' \<mapsto> [1]], began = [], errors = []\<rparr>"

text \<open>A stored part with two images, the first its primary one, and the part as a
  later pass extracts it; a world where the second image has changed on the site, and
  one where the part is a tombstone and its primary image has changed.\<close>

definition ex_url_a :: string where
  "ex_url_a = ''https://www.purkuosat.net/images/MX/a.jpg''"

definition ex_url_b :: string where
  "ex_url_b = ''https://www.purkuosat.net/images/MX/b.jpg''"

definition ex_row :: part_row where
  "ex_row =
     \<lparr>p_id = ''p1'', p_motorcycle_id = ''m1'', p_name = ''Tank'', p_part_number = ''12345'',
      p_description = Some [], p_price = Some 45, p_currency = Some ''EUR'',
      p_image_url = Some ex_url_a, p_image_path = Some ''images/MX/a.jpg'',
      p_url = ''https://www.purkuosat.net/rs125.htm'',
      p_scraped_at = Some ''2026-01-01 12:00:00'', p_last_seen = Some ''2026-01-01 12:00:00'',
      p_is_deleted = 0, p_deleted_at = None\<rparr>"

definition ex_part :: part where
  "ex_part =
     \<lparr>pt_name = ''Tank'', pt_partNumber = ''12345'', pt_description = [], pt_price = 45,
      pt_currency = ''EUR'', pt_imageUrl = Some ex_url_a, pt_imageUrls = [ex_url_a, ex_url_b]\<rparr>"

definition ex_world2 :: world where
  "ex_world2 =
     \<lparr>motorcycles = [], parts = [ex_row], parts_history = [], part_images = [],
      files = [''images/MX/a.jpg'' \<mapsto> [1, 2], ''images/MX/b.jpg'' \<mapsto> [1]],
      began = [], errors = []\<rparr>"

definition ex_row_deleted :: part_row where
  "ex_row_deleted = ex_row\<lparr>p_is_deleted := 1, p_deleted_at := Some ''2026-01-02 12:00:00''\<rparr>"

definition ex_world3 :: world where
  "ex_world3 =
     \<lparr>motorcycles = [], parts = [ex_row_deleted], parts_history = [], part_images = [],
      files = [''images/MX/a.jpg'' \<mapsto> [1], ''images/MX/b.jpg'' \<mapsto> [1, 2]],
      began = [], errors = []\<rparr>"


text \<open>A part whose block has no part number.\<close>

definition ex_unnumbered :: part where
  "ex_unnumbered =
     \<lparr>pt_name = ''Tank'', pt_partNumber = [], pt_description = [], pt_price = 45,
      pt_currency = ''EUR'', pt_imageUrl = None, pt_imageUrls = []\<rparr>"

text \<open>Three stored parts of one vehicle, the last a tombstone.\<close>

definition ex_world4 :: world where
  "ex_world4 =
     \<lparr>motorcycles = [],
      parts = [ex_row,
               ex_row\<lparr>p_id := ''p2'', p_name := ''Seat'', p_part_number := ''222''\<rparr>,
               ex_row_deleted\<lparr>p_id := ''p3'', p_name := ''Chain'', p_part_number := ''333''\<rparr>],
      parts_history = [], part_images = [], files = (\<lambda>_. None), began = [], errors = []\<rparr>"

text \<open>A link to a model page, and a world whose vehicle for that page was stored under an
  identifier of an older scheme and an older spelling of the brand.\<close>

definition ex_link :: link where
  "ex_link =
     \<lparr>l_text = ''aprilia RS 125'', l_href = ''https://www.purkuosat.net/rs125.htm'',
      l_category = ''motorcycles''\<rparr>"


text \<open>A table with a heading row and two blocks, the first without a positive price.\<close>

definition ex_listing :: table_el where
  "ex_listing =
     \<lparr>t_rows =
        [\<lparr>row_cells = [''Varaosat''], row_imgs = []\<rparr>,
         \<lparr>row_cells = [''OSA:'', ''Mirror''], row_imgs = []\<rparr>,
         \<lparr>row_cells = [''OSANRO:'', ''777''], row_imgs = []\<rparr>,
         \<lparr>row_cells = [''HINTA:'', ''0 EUR''], row_imgs = []\<rparr>,
         \<lparr>row_cells = [''OSA'', ''Tank''], row_imgs = []\<rparr>,
         \<lparr>row_cells = [''OSANRO:'', ''12345''], row_imgs = []\<rparr>,
         \<lparr>row_cells = [''LISATIEDOT:'', ''small dent''], row_imgs = []\<rparr>,
         \<lparr>row_cells = [''HINTA:'', ''45,50 EUR''], row_imgs = []\<rparr>],
      t_imgs = []\<rparr>"

text \<open>An empty world; a page whose one block has no part number; a page whose one
  block has a part number and an image, and the same page once the image is gone.\<close>

definition ex_empty :: world where
  "ex_empty =
     \<lparr>motorcycles = [], parts = [], parts_history = [], part_images = [],
      files = (\<lambda>_. None), began = [], errors = []\<rparr>"

definition ex_page_unnumbered :: page where
  "ex_page_unnumbered =
     [\<lparr>t_rows =
         [\<lparr>row_cells = [''OSA:'', ''Tank''], row_imgs = []\<rparr>,
          \<lparr>row_cells = [''HINTA:'', ''45 EUR''], row_imgs = []\<rparr>],
       t_imgs = []\<rparr>]"

definition ex_page_pictured :: page where
  "ex_page_pictured =
     [\<lparr>t_rows =
         [\<lparr>row_cells = [''OSA'', ''Tank''], row_imgs = []\<rparr>,
          \<lparr>row_cells = [''OSANRO:'', ''12345''], row_imgs = []\<rparr>,
          \<lparr>row_cells = [''HINTA:'', ''45 EUR''], row_imgs = []\<rparr>],
       t_imgs = [\<lparr>img_src = ex_url_a,
                  img_parent_href = [], img_alt = []\<rparr>]\<rparr>]"

definition ex_page_plain :: page where
  "ex_page_plain =
     [\<lparr>t_rows =
         [\<lparr>row_cells = [''OSA'', ''Tank''], row_imgs = []\<rparr>,
          \<lparr>row_cells = [''OSANRO:'', ''12345''], row_imgs = []\<rparr>,
          \<lparr>row_cells = [''HINTA:'', ''45 EUR''], row_imgs = []\<rparr>],
       t_imgs = []\<rparr>]"

definition ex_plain :: part where
  "ex_plain =
     \<lparr>pt_name = ''Tank'', pt_partNumber = ''12345'', pt_description = [], pt_price = 45,
      pt_currency = ''EUR'', pt_imageUrl = None, pt_imageUrls = []\<rparr>"

section \<open>Substrings\<close>

lemma startsWith_iff: "startsWith s n \<longleftrightarrow> (\<exists>t. s = n @ t)"
  by (induction s n rule: startsWith.induct) auto

lemma str_includes_iff: "str_includes h n \<longleftrightarrow> (\<exists>p t. h = p @ n @ t)"
proof (induction h)
  case Nil
  then show ?case by auto
next
  case (Cons c cs)
  show ?case
  proof
    assume "str_includes (c # cs) n"
    then consider "startsWith (c # cs) n" | "str_includes cs n" by auto
    then show "\<exists>p t. c # cs = p @ n @ t"
    proof cases
      case 1
      then obtain t where "c # cs = n @ t" by (auto simp: startsWith_iff)
      then have "c # cs = [] @ n @ t" by simp
      then show ?thesis by blast
    next
      case 2
      then obtain p t where "cs = p @ n @ t" using Cons.IH by auto
      then have "c # cs = (c # p) @ n @ t" by simp
      then show ?thesis by blast
    qed
  next
    assume "\<exists>p t. c # cs = p @ n @ t"
    then obtain p t where e: "c # cs = p @ n @ t" by blast
    show "str_includes (c # cs) n"
    proof (cases p)
      case Nil
      with e have "startsWith (c # cs) n" by (auto simp: startsWith_iff)
      then show ?thesis by simp
    next
      case (Cons a p')
      with e have "cs = p' @ n @ t" by simp
      then have "str_includes cs n" using Cons.IH by blast
      then show ?thesis by simp
    qed
  qed
qed



section \<open>The filter matches by groups of words\<close>

lemma of_char_upperChar:
  "(of_char (upperChar c) :: nat) =
     (if (97 \<le> (of_char c :: nat) \<and> (of_char c :: nat) \<le> 122) \<or>
         (224 \<le> (of_char c :: nat) \<and> (of_char c :: nat) \<le> 254 \<and> (of_char c :: nat) \<noteq> 247)
      then of_char c - 32 else of_char c)"
proof -
  have "(of_char c :: nat) < 256" by simp
  then have "(of_char c :: nat) - 32 < 256" by arith
  then show ?thesis by (simp add: upperChar_def Let_def)
qed

lemma of_char_lowerChar:
  "(of_char (lowerChar c) :: nat) =
     (if (65 \<le> (of_char c :: nat) \<and> (of_char c :: nat) \<le> 90) \<or>
         (192 \<le> (of_char c :: nat) \<and> (of_char c :: nat) \<le> 222 \<and> (of_char c :: nat) \<noteq> 215)
      then of_char c + 32 else of_char c)"
  by (simp add: lowerChar_def Let_def)

lemma char_eqI: "(of_char a :: nat) = of_char b \<Longrightarrow> a = b"
  by simp

lemma lowerChar_upperChar: "lowerChar (upperChar c) = lowerChar c"
  by (rule char_eqI, simp add: of_char_upperChar of_char_lowerChar, arith?)

lemma normalizeLoose_upper: "normalizeLoose (map upperChar s) = normalizeLoose s"
  by (simp add: normalizeLoose_def toLowerCase_def lowerChar_upperChar comp_def)

lemma set_replaceRuns: "set (replaceRuns P r s) \<subseteq> set r \<union> {c \<in> set s. \<not> P c}"
proof (induction P r s rule: replaceRuns.induct)
  case (1 P r)
  then show ?case by simp
next
  case (2 P r c cs)
  show ?case
  proof (cases "P c")
    case True
    have "set (dropWhile P cs) \<subseteq> set cs" by (rule set_dropWhileD [THEN subsetI]) 
    with 2(1) [OF True] True show ?thesis by auto
  next
    case False
    with 2(2) [OF False] show ?thesis by auto
  qed
qed

lemma set_trim: "set (trim s) \<subseteq> set s"
proof -
  have "set (dropWhile isSpace (rev (dropWhile isSpace s))) \<subseteq> set (rev (dropWhile isSpace s))"
    by (rule set_dropWhileD [THEN subsetI])
  moreover have "set (dropWhile isSpace s) \<subseteq> set s"
    by (rule set_dropWhileD [THEN subsetI])
  ultimately show ?thesis by (auto simp: trim_def)
qed

lemma set_normalizeLoose: "c \<in> set (normalizeLoose s) \<Longrightarrow> isLowerAlnum c \<or> c = CHR '' ''"
proof -
  assume "c \<in> set (normalizeLoose s)"
  then have "c \<in> set (replaceRuns (\<lambda>c. \<not> isLowerAlnum c) '' '' (toLowerCase s))"
    using set_trim by (auto simp: normalizeLoose_def)
  then show ?thesis using set_replaceRuns [of "\<lambda>c. \<not> isLowerAlnum c" "'' ''" "toLowerCase s"] by auto
qed

lemma matches_iff:
  "matchesAllowedFilter fs t b m \<longleftrightarrow>
     fs = [] \<or> (\<exists>g \<in> set fs. \<forall>tok \<in> set g.
        \<exists>p s. normalizeLoose (t @ '' '' @ b @ '' '' @ m) = p @ tok @ s)"
  by (auto simp: matchesAllowedFilter_def Let_def list_ex_iff list_all_iff str_includes_iff)

lemma normalizeFilterList_Some:
  "set (normalizeFilterList (Some vs)) = {g. g \<noteq> [] \<and> (\<exists>v \<in> set vs. g = tokens isSpace (normalizeLoose v))}"
  by (auto simp: normalizeFilterList_def)


lemma matches_groups:
  "matchesAllowedFilter (normalizeFilterList (Some vs)) t b m \<longleftrightarrow>
     (\<forall>v \<in> set vs. tokens isSpace (normalizeLoose v) = []) \<or>
     (\<exists>v \<in> set vs. tokens isSpace (normalizeLoose v) \<noteq> [] \<and>
        (\<forall>tok \<in> set (tokens isSpace (normalizeLoose v)).
           \<exists>p s. normalizeLoose (t @ '' '' @ b @ '' '' @ m) = p @ tok @ s))"
proof -
  have e: "normalizeFilterList (Some vs) = [] \<longleftrightarrow> (\<forall>v \<in> set vs. tokens isSpace (normalizeLoose v) = [])"
    by (auto simp: normalizeFilterList_def filter_empty_conv)
  show ?thesis
    unfolding matches_iff e by (auto simp: normalizeFilterList_Some)
qed

lemma linkAllowed_no_filter: "linkAllowed None t" "linkAllowed (Some []) t" "linkAllowed (Some (splitBrandsInput [])) t"
  by (simp_all add: linkAllowed_def normalizeFilterList_def matchesAllowedFilter_def splitBrandsInput_def trim_def split: prod.splits)

text \<open>
  Claim C7. The filter typed as a comma-separated text is cut at the commas by the
  client; each group is reduced to its lower-case alphanumeric words; a link matches
  when the filter has no group with a word, or when some group has all its words as
  substrings of the reduced link text, brand and model. Upper and lower case and
  punctuation make no difference to the reduced text. The filter
  \<^verbatim>\<open>aprilia 125,cagiva\<close> matches \<^verbatim>\<open>Aprilia RS 125 parts\<close> and \<^verbatim>\<open>Cagiva Mito\<close> and
  does not match \<^verbatim>\<open>Honda CBR\<close>; an absent or empty filter matches every link.
\<close>

theorem allow_list_filter:
  "(matchesAllowedFilter (normalizeFilterList (Some vs)) t b m \<longleftrightarrow>
      (\<forall>v \<in> set vs. tokens isSpace (normalizeLoose v) = []) \<or>
      (\<exists>v \<in> set vs. tokens isSpace (normalizeLoose v) \<noteq> [] \<and>
         (\<forall>tok \<in> set (tokens isSpace (normalizeLoose v)).
            \<exists>p s. normalizeLoose (t @ '' '' @ b @ '' '' @ m) = p @ tok @ s)))
   \<and> normalizeLoose (map upperChar x) = normalizeLoose x
   \<and> (\<forall>c \<in> set (normalizeLoose x). isLowerAlnum c \<or> c = CHR '' '')
   \<and> splitBrandsInput ''aprilia 125,cagiva'' = [''aprilia 125'', ''cagiva'']
   \<and> normalizeFilterList (Some [''aprilia 125'', ''cagiva'']) = [[''aprilia'', ''125''], [''cagiva'']]
   \<and> linkAllowed (Some (splitBrandsInput ''aprilia 125,cagiva'')) ''Aprilia RS 125 parts''
   \<and> linkAllowed (Some (splitBrandsInput ''aprilia 125,cagiva'')) ''Cagiva Mito''
   \<and> \<not> linkAllowed (Some (splitBrandsInput ''aprilia 125,cagiva'')) ''Honda CBR''
   \<and> linkAllowed None t \<and> linkAllowed (Some []) t \<and> linkAllowed (Some (splitBrandsInput [])) t"
proof -
  have a: "splitBrandsInput ''aprilia 125,cagiva'' = [''aprilia 125'', ''cagiva'']" by code_simp
  have b: "normalizeFilterList (Some [''aprilia 125'', ''cagiva'']) = [[''aprilia'', ''125''], [''cagiva'']]"
    by code_simp
  have c: "linkAllowed (Some (splitBrandsInput ''aprilia 125,cagiva'')) ''Aprilia RS 125 parts''"
    by code_simp
  have d: "linkAllowed (Some (splitBrandsInput ''aprilia 125,cagiva'')) ''Cagiva Mito''"
    by code_simp
  have e: "\<not> linkAllowed (Some (splitBrandsInput ''aprilia 125,cagiva'')) ''Honda CBR''"
    by code_simp
  show ?thesis
    using matches_groups [of vs t b m] normalizeLoose_upper [of x] set_normalizeLoose [of _ x]
      a b c d e linkAllowed_no_filter [of t]
    by blast
qed

theorem allow_list_filter_witness:
  "\<not> matchesAllowedFilter (normalizeFilterList (Some [''aprilia 125'', ''cagiva''])) ''Honda CBR'' ''Honda'' ''CBR''
   \<and> \<not> (\<exists>v \<in> set [''aprilia 125'', ''cagiva'']. tokens isSpace (normalizeLoose v) \<noteq> [] \<and>
         (\<forall>tok \<in> set (tokens isSpace (normalizeLoose v)).
            \<exists>p s. normalizeLoose (''Honda CBR'' @ '' '' @ ''Honda'' @ '' '' @ ''CBR'') = p @ tok @ s))"
proof -
  have n: "\<not> matchesAllowedFilter (normalizeFilterList (Some [''aprilia 125'', ''cagiva''])) ''Honda CBR'' ''Honda'' ''CBR''"
    by code_simp
  show ?thesis
    using n allow_list_filter [of "[''aprilia 125'', ''cagiva'']" "''Honda CBR''" "''Honda''" "''CBR''"]
    by blast
qed


section \<open>The outcomes of an image synchronization\<close>

lemma ex_local_path: "getLocalImagePathFromUrl ex_env ''https://www.purkuosat.net/images/MX/a.jpg'' = Some ''MX/a.jpg''"
  by code_simp

lemma ex_history_path: "historyPath 1700 ''MX/a.jpg'' = ''images/_history/MX/a__1700.jpg''"
  by code_simp

lemma historyPath_prefix: "\<exists>t. historyPath now relative = ''images/_history/'' @ t"
  by (cases "path_dirname relative = []") (simp_all add: historyPath_def)

text \<open>
  Claim C5. One synchronization of a remote image whose URL gives a local path. When
  the local size and the remote content length are known and equal, the outcome is
  \<^verbatim>\<open>skipped_unchanged\<close> and only the probe has begun: no body is transferred, no file
  is written. Otherwise the body is requested; when the request fails there is no
  outcome; when the length of the body is the local size the outcome is
  \<^verbatim>\<open>skipped_unchanged\<close> and no file is written; when there was no local file the
  outcome is \<^verbatim>\<open>downloaded_new\<close>; when there was one of another length it is copied
  to the backup path made of its name and the clock, then overwritten, and the
  outcome is \<^verbatim>\<open>downloaded_updated\<close> with the backup path. A URL that gives no local
  path has no outcome and begins no call. Every backup path lies under
  \<^verbatim>\<open>images/_history/\<close>.
\<close>

theorem downloadImage_outcomes:
  "((getLocalImagePathFromUrl e imageUrl = None \<longrightarrow>
      snd (downloadImage e w imageUrl) = None \<and>
      began (fst (downloadImage e w imageUrl)) = began w \<and>
      files (fst (downloadImage e w imageUrl)) = files w) \<and>
   (getLocalImagePathFromUrl e imageUrl = Some relative \<longrightarrow>
      (let displayPath = ''images/'' @ relative;
           localSize = map_option length (files w displayPath);
           w' = fst (downloadImage e w imageUrl);
           r = snd (downloadImage e w imageUrl)
       in
         (localSize \<noteq> None \<and> head_size e imageUrl = localSize \<longrightarrow>
            map_option dl_status r = Some ''skipped_unchanged'' \<and>
            map_option dl_filepath r = Some displayPath \<and>
            map_option dl_previous_filepath r = Some None \<and>
            began w' = began w @ [ProbeImage imageUrl] \<and>
            files w' = files w) \<and>
         (\<not> (localSize \<noteq> None \<and> head_size e imageUrl = localSize) \<longrightarrow>
            began w' = began w @ [ProbeImage imageUrl, DownloadImage imageUrl] \<and>
            (get_body e imageUrl = None \<longrightarrow> r = None \<and> files w' = files w) \<and>
            (\<forall>body. get_body e imageUrl = Some body \<longrightarrow>
               map_option dl_filepath r = Some displayPath \<and>
               (localSize = Some (length body) \<longrightarrow>
                  map_option dl_status r = Some ''skipped_unchanged'' \<and>
                  map_option dl_previous_filepath r = Some None \<and>
                  files w' = files w) \<and>
               (localSize = None \<longrightarrow>
                  map_option dl_status r = Some ''downloaded_new'' \<and>
                  map_option dl_previous_filepath r = Some None \<and>
                  files w' = (files w)(displayPath \<mapsto> body)) \<and>
               (\<forall>old. files w displayPath = Some old \<and> length old \<noteq> length body \<longrightarrow>
                  map_option dl_status r = Some ''downloaded_updated'' \<and>
                  map_option dl_previous_filepath r =
                    Some (Some (historyPath (now_ms e) relative)) \<and>
                  files w' =
                    ((files w)(historyPath (now_ms e) relative \<mapsto> old))
                      (displayPath \<mapsto> body)))))))
   \<and> (\<exists>t. historyPath (now_ms e) relative = ''images/_history/'' @ t)"
  by (rule conjI [OF _ historyPath_prefix])
     (auto simp: downloadImage_def Let_def split: option.splits)

theorem downloadImage_outcomes_witness:
  "getLocalImagePathFromUrl ex_env ''https://www.purkuosat.net/images/MX/a.jpg'' = Some ''MX/a.jpg''
   \<and> files ex_world ''images/MX/a.jpg'' = Some [1]
   \<and> get_body ex_env ''https://www.purkuosat.net/images/MX/a.jpg'' = Some [7, 8]
   \<and> map_option dl_status (snd (downloadImage ex_env ex_world ''https://www.purkuosat.net/images/MX/a.jpg''))
       = Some ''downloaded_updated''
   \<and> map_option dl_previous_filepath (snd (downloadImage ex_env ex_world ''https://www.purkuosat.net/images/MX/a.jpg''))
       = Some (Some ''images/_history/MX/a__1700.jpg'')
   \<and> files (fst (downloadImage ex_env ex_world ''https://www.purkuosat.net/images/MX/a.jpg''))
        ''images/_history/MX/a__1700.jpg'' = Some [1]
   \<and> files (fst (downloadImage ex_env ex_world ''https://www.purkuosat.net/images/MX/a.jpg''))
        ''images/MX/a.jpg'' = Some [7, 8]"
proof -
  let ?u = "''https://www.purkuosat.net/images/MX/a.jpg''"
  have f: "files ex_world ''images/MX/a.jpg'' = Some [1]" by (simp add: ex_world_def)
  have g: "get_body ex_env ?u = Some [7, 8]" by (simp add: ex_env_def)
  have hs: "head_size ex_env ?u = None" by (simp add: ex_env_def)
  have n: "now_ms ex_env = 1700" by (simp add: ex_env_def)
  show ?thesis
    using downloadImage_outcomes [of ex_env ?u ex_world "''MX/a.jpg''", THEN conjunct1]
      ex_local_path ex_history_path f g hs n
    by (simp add: Let_def)
qed

section \<open>What the asset synchronizer leaves alone\<close>

lemma downloadImage_frame:
  "parts (fst (downloadImage e w u)) = parts w"
  "parts_history (fst (downloadImage e w u)) = parts_history w"
  "motorcycles (fst (downloadImage e w u)) = motorcycles w"
  "part_images (fst (downloadImage e w u)) = part_images w"
  by (auto simp: downloadImage_def Let_def split: option.splits)

lemma syncLoop_frame:
  "parts (fst (syncLoop e dl pid i urls w)) = parts w \<and>
   parts_history (fst (syncLoop e dl pid i urls w)) = parts_history w \<and>
   motorcycles (fst (syncLoop e dl pid i urls w)) = motorcycles w"
proof (induction urls arbitrary: i w)
  case Nil
  show ?case by simp
next
  case (Cons u urls)
  show ?case
    by (simp add: Let_def split_beta Cons.IH insertImageOrIgnore_def updateImagePath_def
        downloadImage_frame split: option.splits)
qed

lemma syncPartImages_frame:
  "parts (fst (syncPartImages e w pid urls dl)) = parts w"
  "parts_history (fst (syncPartImages e w pid urls dl)) = parts_history w"
  "motorcycles (fst (syncPartImages e w pid urls dl)) = motorcycles w"
  by (simp_all add: syncPartImages_def syncLoop_frame)

lemma snd_trackPart:
  "snd (trackPart e mid u dl ts (w, seen) p) =
     seen @ [generateId (md5 e) (mid @ ''-'' @ (if pt_partNumber p \<noteq> [] then pt_partNumber p else pt_name p))]"
  by (simp add: trackPart_def Let_def split_beta split: option.splits)

lemma snd_foldl_trackPart:
  "snd (foldl (trackPart e mid u dl ts) (w, seen) ps) =
     seen @ map (\<lambda>p. generateId (md5 e) (mid @ ''-'' @ (if pt_partNumber p \<noteq> [] then pt_partNumber p else pt_name p))) ps"
proof (induction ps arbitrary: w seen)
  case Nil
  show ?case by simp
next
  case (Cons p ps)
  obtain w' seen' where st: "trackPart e mid u dl ts (w, seen) p = (w', seen')"
    by (cases "trackPart e mid u dl ts (w, seen) p")
  have "seen' = seen @ [generateId (md5 e) (mid @ ''-'' @ (if pt_partNumber p \<noteq> [] then pt_partNumber p else pt_name p))]"
    using snd_trackPart [of e mid u dl ts w seen p] st by simp
  then show ?case by (simp add: st Cons.IH)
qed

section \<open>A part without a part number is not stored\<close>

text \<open>
  Claim C10. A freshly extracted part whose part number is empty and whose name
  matches no stored row of the vehicle: the insert binds \<^verbatim>\<open>NULL\<close> to the
  \<^verbatim>\<open>NOT NULL\<close> column \<^verbatim>\<open>part_number\<close> and fails, whatever the other columns hold; the
  turn of the loop leaves the world as it was (no part, no image row, no history row,
  no call, no line on \<^verbatim>\<open>console.error\<close>); the loop goes on with the parts that
  follow; and the identifier of the part is among the identifiers the pass has seen.
\<close>

theorem insert_without_part_number:
  assumes "pt_partNumber p = []"
    and "find (\<lambda>r. p_motorcycle_id r = mid \<and> p_name r = pt_name p) (parts w) = None"
  shows "insertPart w r (orNull (pt_partNumber p)) = None
    \<and> trackPart e mid u dl ts (w, seen) p = (w, seen @ [generateId (md5 e) (mid @ ''-'' @ pt_name p)])
    \<and> trackParts e mid u dl ts w (p # ps) =
        foldl (trackPart e mid u dl ts) (w, [generateId (md5 e) (mid @ ''-'' @ pt_name p)]) ps
    \<and> generateId (md5 e) (mid @ ''-'' @ pt_name p) \<in> set (snd (trackParts e mid u dl ts w (p # ps)))"
proof -
  have i: "insertPart w r (orNull (pt_partNumber p)) = None" for r
    using assms(1) by (simp add: insertPart_def orNull_def)
  have t: "trackPart e mid u dl ts (w, seen) p = (w, seen @ [generateId (md5 e) (mid @ ''-'' @ pt_name p)])" for seen
    using assms by (simp add: trackPart_def Let_def insertPart_def orNull_def)
  have f: "trackParts e mid u dl ts w (p # ps) =
        foldl (trackPart e mid u dl ts) (w, [generateId (md5 e) (mid @ ''-'' @ pt_name p)]) ps"
    using t [of "[]"] by (simp add: trackParts_def)
  have "generateId (md5 e) (mid @ ''-'' @ pt_name p) \<in> set (snd (trackParts e mid u dl ts w (p # ps)))"
    unfolding f snd_foldl_trackPart by simp
  with i t f show ?thesis by blast
qed


theorem insert_without_part_number_witness:
  "pt_partNumber ex_unnumbered = []
   \<and> find (\<lambda>r. p_motorcycle_id r = ''m1'' \<and> p_name r = pt_name ex_unnumbered) (parts ex_world) = None
   \<and> trackPart ex_env ''m1'' ''https://www.purkuosat.net/rs125.htm'' True ''2026-01-03 12:00:00''
        (ex_world, []) ex_unnumbered = (ex_world, [generateId (md5 ex_env) ''m1-Tank''])"
proof -
  have a: "pt_partNumber ex_unnumbered = []" by (simp add: ex_unnumbered_def)
  have b: "find (\<lambda>r. p_motorcycle_id r = ''m1'' \<and> p_name r = pt_name ex_unnumbered) (parts ex_world) = None"
    by (simp add: ex_world_def)
  have n: "pt_name ex_unnumbered = ''Tank''" by (simp add: ex_unnumbered_def)
  show ?thesis
    using insert_without_part_number [OF a b, of ex_row ex_env
        "''https://www.purkuosat.net/rs125.htm''" True "''2026-01-03 12:00:00''" "[]" "[]"] a b
    by (simp add: n)
qed

section \<open>The history row of a changed part\<close>

lemma updateExisting_history:
  "parts_history (updateExisting e pageUrl dl ts w ex p) =
     parts_history w @
       (if (((case p_price ex of None \<Rightarrow> 0 | Some x \<Rightarrow> x) \<noteq> pt_price p \<or>
             p_name ex \<noteq> pt_name p \<or>
             orEmpty (p_description ex) \<noteq> pt_description p \<or>
             orEmpty (p_image_url ex) \<noteq> orEmpty (pt_imageUrl p)) \<or>
            (\<exists>img \<in> set (snd (syncPartImages e w (p_id ex) (pt_imageUrls p) dl)).
               r_status img = ''downloaded_updated'')
            \<or> p_is_deleted ex \<noteq> 0) then
          [\<lparr>h_part_id = p_id ex, h_motorcycle_id = p_motorcycle_id ex, h_name = p_name ex,
            h_part_number = p_part_number ex, h_description = p_description ex,
            h_price = p_price ex, h_currency = p_currency ex, h_image_url = p_image_url ex,
            h_image_path =
              historyImagePath ex (snd (syncPartImages e w (p_id ex) (pt_imageUrls p) dl)),
            h_url = p_url ex,
            h_history_event = (if p_is_deleted ex \<noteq> 0 then ''restored'' else ''updated''),
            h_is_deleted = p_is_deleted ex,
            h_deleted_at = orNull (orEmpty (p_deleted_at ex)),
            h_recorded_at = ts\<rparr>]
        else [])"
proof -
  obtain w1 res where s: "syncPartImages e w (p_id ex) (pt_imageUrls p) dl = (w1, res)"
    by (cases "syncPartImages e w (p_id ex) (pt_imageUrls p) dl")
  have h1: "parts_history w1 = parts_history w"
    using syncPartImages_frame(2) [of e w "p_id ex" "pt_imageUrls p" dl] s by simp
  have c: "changedFields ex p \<noteq> [] \<longleftrightarrow>
       ((case p_price ex of None \<Rightarrow> 0 | Some x \<Rightarrow> x) \<noteq> pt_price p \<or>
           p_name ex \<noteq> pt_name p \<or>
           orEmpty (p_description ex) \<noteq> pt_description p \<or>
           orEmpty (p_image_url ex) \<noteq> orEmpty (pt_imageUrl p))"
    by (auto simp: changedFields_def)
  show ?thesis
    unfolding updateExisting_def c [symmetric]
    by (simp add: s Let_def finalizePart_def h1 list_ex_iff)
qed

lemma primaryImageBackup_Some:
  assumes a: "primaryImageBackup ex res = Some b"
  shows "historyImagePath ex res = r_previousPath b \<and>
         b \<in> set res \<and> r_status b = ''downloaded_updated'' \<and>
         truthy (r_previousPath b) \<and>
         ((truthy (p_image_url ex) \<and> Some (r_url b) = p_image_url ex) \<or>
          (truthy (p_image_path ex) \<and> Some (r_path b) = p_image_path ex))"
proof -
  have fs: "find P xs = Some x \<Longrightarrow> P x \<and> x \<in> set xs" for P xs and x :: image_result
    by (auto simp: find_Some_iff)
  have "historyImagePath ex res = r_previousPath b" by (simp add: historyImagePath_def a)
  moreover note fs [OF a [unfolded primaryImageBackup_def]]
  ultimately show ?thesis by blast
qed

lemma primaryImageBackup_None:
  assumes a: "primaryImageBackup ex res = None"
  shows "historyImagePath ex res = p_image_path ex \<and>
         \<not> (\<exists>img \<in> set res.
               r_status img = ''downloaded_updated'' \<and> truthy (r_previousPath img) \<and>
               ((truthy (p_image_url ex) \<and> Some (r_url img) = p_image_url ex) \<or>
                (truthy (p_image_path ex) \<and> Some (r_path img) = p_image_path ex)))"
proof -
  have "historyImagePath ex res = p_image_path ex" by (simp add: historyImagePath_def a)
  moreover have "\<not> (\<exists>img \<in> set res.
                   r_status img = ''downloaded_updated'' \<and> truthy (r_previousPath img) \<and>
                   ((truthy (p_image_url ex) \<and> Some (r_url img) = p_image_url ex) \<or>
                    (truthy (p_image_path ex) \<and> Some (r_path img) = p_image_path ex)))"
    using a [unfolded primaryImageBackup_def find_None_iff] by blast
  ultimately show ?thesis by blast
qed

text \<open>
  Claim C3, amended. For a part matched to a stored row, the branch adds one history
  row when a field differs (the price as a number, the name, the description, the
  URL of the primary image), or an image of the part was downloaded over an older
  file, or the stored row was a tombstone; otherwise it adds none. The row holds
  the values of the stored row from before the change, tagged \<^verbatim>\<open>restored\<close> when the
  row was a tombstone and \<^verbatim>\<open>updated\<close> otherwise. Its image path is the backup path
  of the first replaced image that is the primary one (its URL is the stored image
  URL or its path the stored image path); when no replaced image is the primary one
  it is the stored image path.
\<close>

theorem history_on_update:
  "(let imageResults = snd (syncPartImages e w (p_id ex) (pt_imageUrls p) dl);
        w' = updateExisting e pageUrl dl ts w ex p;
        fieldChanged =
          ((case p_price ex of None \<Rightarrow> 0 | Some x \<Rightarrow> x) \<noteq> pt_price p \<or>
           p_name ex \<noteq> pt_name p \<or>
           orEmpty (p_description ex) \<noteq> pt_description p \<or>
           orEmpty (p_image_url ex) \<noteq> orEmpty (pt_imageUrl p));
        imageContentChanged = (\<exists>img \<in> set imageResults. r_status img = ''downloaded_updated'');
        wasDeleted = (p_is_deleted ex \<noteq> 0)
    in
      parts_history w' =
        parts_history w @
          (if fieldChanged \<or> imageContentChanged \<or> wasDeleted then
             [\<lparr>h_part_id = p_id ex, h_motorcycle_id = p_motorcycle_id ex, h_name = p_name ex,
               h_part_number = p_part_number ex, h_description = p_description ex,
               h_price = p_price ex, h_currency = p_currency ex, h_image_url = p_image_url ex,
               h_image_path = historyImagePath ex imageResults,
               h_url = p_url ex,
               h_history_event = (if wasDeleted then ''restored'' else ''updated''),
               h_is_deleted = p_is_deleted ex,
               h_deleted_at = orNull (orEmpty (p_deleted_at ex)),
               h_recorded_at = ts\<rparr>]
           else [])
      \<and> (\<forall>b. primaryImageBackup ex imageResults = Some b \<longrightarrow>
             historyImagePath ex imageResults = r_previousPath b \<and>
             b \<in> set imageResults \<and> r_status b = ''downloaded_updated'' \<and>
             truthy (r_previousPath b) \<and>
             ((truthy (p_image_url ex) \<and> Some (r_url b) = p_image_url ex) \<or>
              (truthy (p_image_path ex) \<and> Some (r_path b) = p_image_path ex)))
      \<and> (primaryImageBackup ex imageResults = None \<longrightarrow>
             historyImagePath ex imageResults = p_image_path ex \<and>
             \<not> (\<exists>img \<in> set imageResults.
                   r_status img = ''downloaded_updated'' \<and> truthy (r_previousPath img) \<and>
                   ((truthy (p_image_url ex) \<and> Some (r_url img) = p_image_url ex) \<or>
                    (truthy (p_image_path ex) \<and> Some (r_path img) = p_image_path ex)))))"
  unfolding Let_def
  using updateExisting_history [of e pageUrl dl ts w ex p]
    primaryImageBackup_Some [of ex "snd (syncPartImages e w (p_id ex) (pt_imageUrls p) dl)"]
    primaryImageBackup_None [of ex "snd (syncPartImages e w (p_id ex) (pt_imageUrls p) dl)"]
  by blast

lemma ex_paths:
  "getLocalImagePathFromUrl ex_env ex_url_a = Some ''MX/a.jpg''"
  "getLocalImagePathFromUrl ex_env ex_url_b = Some ''MX/b.jpg''"
  "historyPath (now_ms ex_env) ''MX/b.jpg'' = ''images/_history/MX/b__1700.jpg''"
  "path_basename ''MX/a.jpg'' = ''a.jpg''"
  "path_basename ''MX/b.jpg'' = ''b.jpg''"
  by code_simp+

lemma ex_env_net:
  "head_size ex_env u = None" "get_body ex_env u = Some [7, 8]"
  by (simp_all add: ex_env_def)

lemma ex_sync_results:
  "snd (syncPartImages ex_env ex_world2 ''p1'' [ex_url_a, ex_url_b] True) =
     [\<lparr>r_url = ex_url_a, r_path = ''images/MX/a.jpg'', r_size = Some 2,
       r_status = ''skipped_unchanged'', r_previousPath = None\<rparr>,
      \<lparr>r_url = ex_url_b, r_path = ''images/MX/b.jpg'', r_size = Some 2,
       r_status = ''downloaded_updated'',
       r_previousPath = Some ''images/_history/MX/b__1700.jpg''\<rparr>]"
proof -
  have ne: "ex_url_a \<noteq> ex_url_b" by (simp add: ex_url_a_def ex_url_b_def)
  have ne': "ex_url_a \<noteq> []" "ex_url_b \<noteq> []" by (simp_all add: ex_url_a_def ex_url_b_def)
  show ?thesis
    using ne ne'
    by (simp add: syncPartImages_def uniq_def downloadImage_def ex_paths ex_env_net ex_world2_def
        Let_def insertImageOrIgnore_def updateImagePath_def truthy_def orEmpty_def)
qed


lemma ex_sync_results3:
  "snd (syncPartImages ex_env ex_world3 ''p1'' [ex_url_a, ex_url_b] True) =
     [\<lparr>r_url = ex_url_a, r_path = ''images/MX/a.jpg'', r_size = Some 2,
       r_status = ''downloaded_updated'',
       r_previousPath = Some ''images/_history/MX/a__1700.jpg''\<rparr>,
      \<lparr>r_url = ex_url_b, r_path = ''images/MX/b.jpg'', r_size = Some 2,
       r_status = ''skipped_unchanged'', r_previousPath = None\<rparr>]"
proof -
  have ne: "ex_url_a \<noteq> ex_url_b" by (simp add: ex_url_a_def ex_url_b_def)
  have ne': "ex_url_a \<noteq> []" "ex_url_b \<noteq> []" by (simp_all add: ex_url_a_def ex_url_b_def)
  have h: "historyPath (now_ms ex_env) ''MX/a.jpg'' = ''images/_history/MX/a__1700.jpg''"
    by code_simp
  show ?thesis
    using ne ne'
    by (simp add: syncPartImages_def uniq_def downloadImage_def ex_paths h ex_env_net ex_world3_def
        Let_def insertImageOrIgnore_def updateImagePath_def truthy_def orEmpty_def)
qed

theorem history_on_update_witness:
  "primaryImageBackup ex_row_deleted
      (snd (syncPartImages ex_env ex_world3 (p_id ex_row_deleted) (pt_imageUrls ex_part) True)) =
     Some \<lparr>r_url = ex_url_a, r_path = ''images/MX/a.jpg'', r_size = Some 2,
           r_status = ''downloaded_updated'',
           r_previousPath = Some ''images/_history/MX/a__1700.jpg''\<rparr>
   \<and> map h_history_event
        (parts_history (updateExisting ex_env ''https://www.purkuosat.net/rs125.htm'' True
           ''2026-01-03 12:00:00'' ex_world3 ex_row_deleted ex_part)) = [''restored'']
   \<and> map h_image_path
        (parts_history (updateExisting ex_env ''https://www.purkuosat.net/rs125.htm'' True
           ''2026-01-03 12:00:00'' ex_world3 ex_row_deleted ex_part)) =
       [Some ''images/_history/MX/a__1700.jpg'']"
proof -
  have r: "p_id ex_row_deleted = ''p1''" "pt_imageUrls ex_part = [ex_url_a, ex_url_b]"
    "p_is_deleted ex_row_deleted = 1" "parts_history ex_world3 = []"
    by (simp_all add: ex_row_deleted_def ex_row_def ex_part_def ex_world3_def)
  have b: "primaryImageBackup ex_row_deleted
      (snd (syncPartImages ex_env ex_world3 (p_id ex_row_deleted) (pt_imageUrls ex_part) True)) =
     Some \<lparr>r_url = ex_url_a, r_path = ''images/MX/a.jpg'', r_size = Some 2,
           r_status = ''downloaded_updated'',
           r_previousPath = Some ''images/_history/MX/a__1700.jpg''\<rparr>"
    by (simp add: r ex_sync_results3 primaryImageBackup_def truthy_def orEmpty_def
        ex_row_deleted_def ex_row_def)
  show ?thesis
    using history_on_update [of ex_env ex_world3 ex_row_deleted ex_part True
        "''https://www.purkuosat.net/rs125.htm''" "''2026-01-03 12:00:00''"] b
    by (simp add: Let_def r)
qed

text \<open>
  Claim C3 as stated fails when the image that changed is not the primary one: the
  second image of the example was replaced and backed up, the history row is written,
  and its image path is the current path of the primary image.
\<close>

theorem history_image_path_counterexample:
  "list_ex (\<lambda>img. r_status img = ''downloaded_updated'' \<and>
                  r_previousPath img = Some ''images/_history/MX/b__1700.jpg'')
     (snd (syncPartImages ex_env ex_world2 (p_id ex_row) (pt_imageUrls ex_part) True))
   \<and> map h_history_event
        (parts_history (updateExisting ex_env ''https://www.purkuosat.net/rs125.htm'' True
           ''2026-01-03 12:00:00'' ex_world2 ex_row ex_part)) = [''updated'']
   \<and> map h_image_path
        (parts_history (updateExisting ex_env ''https://www.purkuosat.net/rs125.htm'' True
           ''2026-01-03 12:00:00'' ex_world2 ex_row ex_part)) = [Some ''images/MX/a.jpg'']
   \<and> p_image_path ex_row = Some ''images/MX/a.jpg''"
proof -
  have r: "p_id ex_row = ''p1''" "pt_imageUrls ex_part = [ex_url_a, ex_url_b]"
    "p_is_deleted ex_row = 0" "parts_history ex_world2 = []"
    "p_image_path ex_row = Some ''images/MX/a.jpg''" "p_image_url ex_row = Some ex_url_a"
    by (simp_all add: ex_row_def ex_part_def ex_world2_def)
  have ne: "ex_url_b \<noteq> ex_url_a" by (simp add: ex_url_a_def ex_url_b_def)
  have b: "historyImagePath ex_row
      (snd (syncPartImages ex_env ex_world2 (p_id ex_row) (pt_imageUrls ex_part) True)) =
      Some ''images/MX/a.jpg''"
    using ne
    by (simp add: r ex_sync_results historyImagePath_def primaryImageBackup_def truthy_def orEmpty_def)
  show ?thesis
    using updateExisting_history [of ex_env "''https://www.purkuosat.net/rs125.htm''" True
        "''2026-01-03 12:00:00''" ex_world2 ex_row ex_part] b
    by (simp add: r ex_sync_results)
qed

section \<open>Tombstones\<close>

lemma inv_map:
  assumes "list_all partInvariant rows" and "\<And>r. partInvariant r \<Longrightarrow> partInvariant (g r)"
  shows "list_all partInvariant (map g rows)"
  using assms by (auto simp: list_all_iff)

lemma inv_finalizePart:
  "list_all partInvariant (parts w) \<Longrightarrow> list_all partInvariant (parts (finalizePart w ts pid))"
  by (auto simp: finalizePart_def list_all_iff partInvariant_def)

lemma flags_updateExisting:
  assumes "r' \<in> set (parts (updateExisting e u dl ts w ex p))"
  shows "p_is_deleted r' = 0 \<or>
     (\<exists>r \<in> set (parts w). p_is_deleted r' = p_is_deleted r \<and> p_deleted_at r' = p_deleted_at r)"
proof -
  obtain w1 res where s: "syncPartImages e w (p_id ex) (pt_imageUrls p) dl = (w1, res)"
    by (cases "syncPartImages e w (p_id ex) (pt_imageUrls p) dl")
  have p1: "parts w1 = parts w"
    using syncPartImages_frame(1) [of e w "p_id ex" "pt_imageUrls p" dl] s by simp
  show ?thesis
    using assms unfolding updateExisting_def finalizePart_def
    by (auto simp: s p1 Let_def split: if_splits)
qed

lemma inv_updateExisting:
  assumes "list_all partInvariant (parts w)"
  shows "list_all partInvariant (parts (updateExisting e u dl ts w ex p))"
  unfolding list_all_iff
proof
  fix r' assume "r' \<in> set (parts (updateExisting e u dl ts w ex p))"
  from flags_updateExisting [OF this] assms show "partInvariant r'"
    by (auto simp: partInvariant_def list_all_iff)
qed

lemma inv_trackPart:
  assumes "list_all partInvariant (parts w)"
  shows "list_all partInvariant (parts (fst (trackPart e mid u dl ts (w, seen) p)))"
proof -
  have ins: "insertPart w r pn = Some w1 \<Longrightarrow> p_is_deleted r = 0 \<Longrightarrow>
      list_all partInvariant (parts (finalizePart (fst (syncPartImages e w1 pid urls dl)) ts pid))"
    for r pn w1 pid urls
    using assms
    by (intro inv_finalizePart)
       (auto simp: insertPart_def syncPartImages_frame partInvariant_def split: option.splits if_splits)
  show ?thesis
    unfolding trackPart_def
    by (auto simp: Let_def split_beta assms inv_updateExisting ins split: option.splits)
qed

lemma inv_foldl_trackPart:
  "list_all partInvariant (parts w) \<Longrightarrow>
   list_all partInvariant (parts (fst (foldl (trackPart e mid u dl ts) (w, seen) ps)))"
proof (induction ps arbitrary: w seen)
  case Nil
  then show ?case by simp
next
  case (Cons p ps)
  obtain w' seen' where st: "trackPart e mid u dl ts (w, seen) p = (w', seen')"
    by (cases "trackPart e mid u dl ts (w, seen) p")
  have "list_all partInvariant (parts w')"
    using inv_trackPart [OF Cons.prems, of e mid u dl ts seen p] st by simp
  from Cons.IH [OF this] show ?case by (simp add: st)
qed

lemma resolveMotorcycle_parts:
  "parts (snd (resolveMotorcycle e w lnk url b m)) = parts w"
  "parts_history (snd (resolveMotorcycle e w lnk url b m)) = parts_history w"
  by (simp_all add: resolveMotorcycle_def Let_def split: option.splits)

lemma archiveRows_frame:
  "parts (fst (archiveRows mid ts rows w)) = parts w"
  by (induction rows arbitrary: w) (auto split: option.splits)

lemma inv_markDeletedParts:
  assumes "list_all partInvariant (parts w)"
  shows "list_all partInvariant (parts (fst (markDeletedParts e w mid seen ts)))"
proof -
  obtain w1 ok where a: "archiveRows mid (if ts \<noteq> [] then ts else local_time e) (deletedRows w mid seen) w = (w1, ok)"
    by (cases "archiveRows mid (if ts \<noteq> [] then ts else local_time e) (deletedRows w mid seen) w")
  have p1: "parts w1 = parts w" using archiveRows_frame [of mid "if ts \<noteq> [] then ts else local_time e" "deletedRows w mid seen" w] a by simp
  have m: "list_all partInvariant
     (map (\<lambda>r. if unseenLive mid seen r
               then r\<lparr>p_is_deleted := 1, p_deleted_at := Some (if ts \<noteq> [] then ts else local_time e)\<rparr>
               else r) (parts w))"
    by (rule inv_map [OF assms]) (simp add: partInvariant_def)
  show ?thesis
    unfolding markDeletedParts_def Let_def
    using a assms m by (cases ok) (auto simp: p1)
qed

lemma inv_scrapeMotorcyclePage:
  assumes "list_all partInvariant (parts w)"
  shows "list_all partInvariant (parts (scrapeMotorcyclePage e site sig w lnk ab dl ts))"
proof -
  have r: "list_all partInvariant (parts (snd (resolveMotorcycle e (w\<lparr>began := b\<rparr>) lnk url br mo)))" for b url br mo
    using assms by (simp add: resolveMotorcycle_parts)
  have s: "list_all partInvariant (parts w2) \<Longrightarrow>
     list_all partInvariant (parts (fst (scrapeParts e w2 pg mid url dl ts')))" for w2 pg mid url ts'
    unfolding scrapeParts_def trackParts_def by (rule inv_foldl_trackPart)
  have k: "list_all partInvariant (parts w3) \<Longrightarrow>
     list_all partInvariant (parts (case markDeletedParts e w3 mid seen ts' of
        (w4, True) \<Rightarrow> w4 | (w4, False) \<Rightarrow> w4\<lparr>errors := errors w4 @ [x]\<rparr>))" for w3 mid seen ts' x
    using inv_markDeletedParts [of w3 e mid seen ts']
    by (cases "markDeletedParts e w3 mid seen ts'") (auto split: bool.splits)
  show ?thesis
    unfolding scrapeMotorcyclePage_def fetchObserving_def
    using assms
    by (auto simp: Let_def split_beta split: option.splits prod.splits bool.splits intro!: inv_markDeletedParts k s r)
qed


lemma unseenLive_iff:
  "unseenLive mid seen r \<longleftrightarrow>
     p_motorcycle_id r = mid \<and> p_id r \<notin> set seen \<and> p_is_deleted r = 0"
  by (cases seen) (simp_all add: unseenLive_def)

lemma archiveRows_ok:
  "\<forall>r \<in> set rows. p_url r \<noteq> [] \<Longrightarrow>
   archiveRows mid ts rows w =
     (w\<lparr>parts_history := parts_history w @ map (\<lambda>r. deletedSnapshot mid ts r (p_url r)) rows\<rparr>, True)"
proof (induction rows arbitrary: w)
  case Nil
  show ?case by simp
next
  case (Cons r rows)
  then show ?case by (simp add: orNull_def)
qed

lemma markDeletedParts_ok:
  assumes "\<forall>r \<in> set (parts w).
      p_motorcycle_id r = mid \<and> p_id r \<notin> set seen \<and> p_is_deleted r = 0 \<longrightarrow> p_url r \<noteq> []"
  shows "markDeletedParts e w mid seen ts =
     (w\<lparr>parts_history := parts_history w @
           map (\<lambda>r. deletedSnapshot mid (if ts \<noteq> [] then ts else local_time e) r (p_url r))
             (sort_key (\<lambda>r. (p_name r, p_id r))
                (filter (\<lambda>r. p_motorcycle_id r = mid \<and> p_id r \<notin> set seen \<and> p_is_deleted r = 0)
                   (parts w))),
         parts :=
           map (\<lambda>r. if p_motorcycle_id r = mid \<and> p_id r \<notin> set seen \<and> p_is_deleted r = 0
                    then r\<lparr>p_is_deleted := 1,
                           p_deleted_at := Some (if ts \<noteq> [] then ts else local_time e)\<rparr>
                    else r)
             (parts w)\<rparr>, True)"
proof -
  define gone where "gone = (\<lambda>r::part_row. p_motorcycle_id r = mid \<and> p_id r \<notin> set seen \<and> p_is_deleted r = 0)"
  define ts' where "ts' = (if ts \<noteq> [] then ts else local_time e)"
  define rows where "rows = sort_key (\<lambda>r. (p_name r, p_id r)) (filter gone (parts w))"
  have ul: "unseenLive mid seen = gone"
    by (rule ext) (simp add: unseenLive_iff gone_def)
  have d: "deletedRows w mid seen = rows"
    by (simp add: deletedRows_def ul rows_def)
  have sr: "set rows = {r \<in> set (parts w). gone r}"
    by (simp add: rows_def)
  have u: "\<forall>r \<in> set rows. p_url r \<noteq> []"
    using assms unfolding sr gone_def by blast
  have m: "markDeletedParts e w mid seen ts =
      (if length rows = 0 then (w, True)
       else (case archiveRows mid ts' rows w of
               (w1, False) \<Rightarrow> (w1, False)
             | (w1, True) \<Rightarrow>
                 (w1\<lparr>parts := map (\<lambda>r. if gone r then r\<lparr>p_is_deleted := 1, p_deleted_at := Some ts'\<rparr>
                                      else r) (parts w1)\<rparr>, True)))"
    unfolding markDeletedParts_def Let_def d ul ts'_def by (rule refl)
  have goal: "markDeletedParts e w mid seen ts =
     (w\<lparr>parts_history := parts_history w @ map (\<lambda>r. deletedSnapshot mid ts' r (p_url r)) rows,
         parts := map (\<lambda>r. if gone r then r\<lparr>p_is_deleted := 1, p_deleted_at := Some ts'\<rparr> else r)
                    (parts w)\<rparr>, True)"
  proof (cases "rows = []")
    case True
    then have "\<forall>r \<in> set (parts w). \<not> gone r" using sr by auto
    then have "map (\<lambda>r. if gone r then r\<lparr>p_is_deleted := 1, p_deleted_at := Some ts'\<rparr> else r) (parts w)
        = parts w"
      by (intro map_idI) simp
    then show ?thesis unfolding m by (simp add: True)
  next
    case False
    show ?thesis unfolding m archiveRows_ok [OF u] by (simp add: False)
  qed
  show ?thesis
    using goal unfolding gone_def ts'_def rows_def by simp
qed



lemma markDeletedParts_again:
  assumes "\<forall>r \<in> set (parts w).
      p_motorcycle_id r = mid \<and> p_id r \<notin> set seen \<and> p_is_deleted r = 0 \<longrightarrow> p_url r \<noteq> []"
  shows "markDeletedParts e (fst (markDeletedParts e w mid seen ts)) mid seen ts2 =
     (fst (markDeletedParts e w mid seen ts), True)"
proof -
  define w' where "w' = fst (markDeletedParts e w mid seen ts)"
  have p: "parts w' =
           map (\<lambda>r. if p_motorcycle_id r = mid \<and> p_id r \<notin> set seen \<and> p_is_deleted r = 0
                    then r\<lparr>p_is_deleted := 1,
                           p_deleted_at := Some (if ts \<noteq> [] then ts else local_time e)\<rparr>
                    else r)
             (parts w)"
    unfolding w'_def by (simp add: markDeletedParts_ok [OF assms])
  have n: "filter (unseenLive mid seen) (parts w') = []"
  proof -
    have "\<not> unseenLive mid seen (if p_motorcycle_id r = mid \<and> p_id r \<notin> set seen \<and> p_is_deleted r = 0
                    then r\<lparr>p_is_deleted := 1,
                           p_deleted_at := Some (if ts \<noteq> [] then ts else local_time e)\<rparr>
                    else r)" for r :: part_row
      by (simp add: unseenLive_iff)
    then have "\<not> unseenLive mid seen x" if "x \<in> set (parts w')" for x
      using that unfolding p set_map by blast
    then show ?thesis unfolding filter_empty_conv by blast
  qed
  have "markDeletedParts e w' mid seen ts2 = (w', True)"
    by (simp add: markDeletedParts_def Let_def deletedRows_def n)
  then show ?thesis unfolding w'_def .
qed

lemma parts_waitOrAbort:
  "parts (fst (waitOrAbort ms sig w)) = parts w"
  by (simp add: waitOrAbort_def)

lemma inv_scrapeLinks:
  "list_all partInvariant (parts w) \<Longrightarrow>
   list_all partInvariant (parts (fst (scrapeLinks e site sig ab dl ts links w)))"
proof (induction links arbitrary: w)
  case Nil
  then show ?case by simp
next
  case (Cons lnk links)
  let ?w1 = "scrapeMotorcyclePage e site sig w lnk ab dl ts"
  have i1: "list_all partInvariant (parts ?w1)"
    by (rule inv_scrapeMotorcyclePage [OF Cons.prems])
  obtain w2 ok where wa: "waitOrAbort 500 sig ?w1 = (w2, ok)"
    by (cases "waitOrAbort 500 sig ?w1")
  have "parts w2 = parts ?w1" using parts_waitOrAbort [of 500 sig ?w1] wa by simp
  then have i2: "list_all partInvariant (parts w2)" using i1 by simp
  show ?case
    using Cons.prems Cons.IH [OF Cons.prems] Cons.IH [OF i2] i2
    by (cases ok) (simp_all add: Let_def wa)
qed

text \<open>
  Claim C8. A turn of the loop over the parts, the reconciliation, a whole pass
  over a model page and the loop over the links of a crawl keep the invariant that a part with \<^verbatim>\<open>is_deleted = 1\<close> has its
  \<^verbatim>\<open>deleted_at\<close>. When the parts that left the page have a URL (the history row takes
  it for a \<^verbatim>\<open>NOT NULL\<close> column), the reconciliation returns, marks as deleted, with
  the time of the pass, exactly the parts of the vehicle that are not among the
  identifiers seen and are not yet deleted, and adds for exactly these one history
  row tagged \<^verbatim>\<open>deleted\<close> holding the part as it was, in the order of name and
  identifier. Running it again with the same identifiers changes nothing.
\<close>

theorem tombstone_reconciliation:
  "(list_all partInvariant (parts w) \<longrightarrow>
      list_all partInvariant (parts (fst (trackPart e mid u dl ts (w, seen) p))) \<and>
      list_all partInvariant (parts (fst (markDeletedParts e w mid seen ts))) \<and>
      list_all partInvariant (parts (scrapeMotorcyclePage e site sig w lnk ab dl ts)) \<and>
      list_all partInvariant (parts (fst (scrapeLinks e site sig ab dl ts links w))))
   \<and> ((\<forall>r \<in> set (parts w).
          p_motorcycle_id r = mid \<and> p_id r \<notin> set seen \<and> p_is_deleted r = 0 \<longrightarrow> p_url r \<noteq> []) \<longrightarrow>
       (let ts' = (if ts \<noteq> [] then ts else local_time e);
            gone = (\<lambda>r. p_motorcycle_id r = mid \<and> p_id r \<notin> set seen \<and> p_is_deleted r = 0);
            w' = fst (markDeletedParts e w mid seen ts)
        in snd (markDeletedParts e w mid seen ts)
           \<and> parts w' =
               map (\<lambda>r. if gone r then r\<lparr>p_is_deleted := 1, p_deleted_at := Some ts'\<rparr> else r)
                 (parts w)
           \<and> parts_history w' =
               parts_history w @
                 map (\<lambda>r. deletedSnapshot mid ts' r (p_url r))
                   (sort_key (\<lambda>r. (p_name r, p_id r)) (filter gone (parts w)))
           \<and> (\<forall>r x. h_history_event (deletedSnapshot mid ts' r x) = ''deleted'' \<and>
                    h_part_id (deletedSnapshot mid ts' r x) = p_id r \<and>
                    h_is_deleted (deletedSnapshot mid ts' r x) = p_is_deleted r)
           \<and> motorcycles w' = motorcycles w \<and> part_images w' = part_images w
           \<and> markDeletedParts e w' mid seen ts2 = (w', True)))"
proof -
  have a: "list_all partInvariant (parts w) \<longrightarrow>
      list_all partInvariant (parts (fst (trackPart e mid u dl ts (w, seen) p))) \<and>
      list_all partInvariant (parts (fst (markDeletedParts e w mid seen ts))) \<and>
      list_all partInvariant (parts (scrapeMotorcyclePage e site sig w lnk ab dl ts)) \<and>
      list_all partInvariant (parts (fst (scrapeLinks e site sig ab dl ts links w)))"
    by (intro impI conjI inv_trackPart inv_markDeletedParts inv_scrapeMotorcyclePage
        inv_scrapeLinks)
  have b: "h_history_event (deletedSnapshot mid t r x) = ''deleted'' \<and>
           h_part_id (deletedSnapshot mid t r x) = p_id r \<and>
           h_is_deleted (deletedSnapshot mid t r x) = p_is_deleted r" for t r x
    by (simp add: deletedSnapshot_def)
  have c: "(\<forall>r \<in> set (parts w).
          p_motorcycle_id r = mid \<and> p_id r \<notin> set seen \<and> p_is_deleted r = 0 \<longrightarrow> p_url r \<noteq> []) \<longrightarrow>
       (let ts' = (if ts \<noteq> [] then ts else local_time e);
            gone = (\<lambda>r. p_motorcycle_id r = mid \<and> p_id r \<notin> set seen \<and> p_is_deleted r = 0);
            w' = fst (markDeletedParts e w mid seen ts)
        in snd (markDeletedParts e w mid seen ts)
           \<and> parts w' =
               map (\<lambda>r. if gone r then r\<lparr>p_is_deleted := 1, p_deleted_at := Some ts'\<rparr> else r)
                 (parts w)
           \<and> parts_history w' =
               parts_history w @
                 map (\<lambda>r. deletedSnapshot mid ts' r (p_url r))
                   (sort_key (\<lambda>r. (p_name r, p_id r)) (filter gone (parts w)))
           \<and> (\<forall>r x. h_history_event (deletedSnapshot mid ts' r x) = ''deleted'' \<and>
                    h_part_id (deletedSnapshot mid ts' r x) = p_id r \<and>
                    h_is_deleted (deletedSnapshot mid ts' r x) = p_is_deleted r)
           \<and> motorcycles w' = motorcycles w \<and> part_images w' = part_images w
           \<and> markDeletedParts e w' mid seen ts2 = (w', True))"
  proof
    assume h: "\<forall>r \<in> set (parts w).
          p_motorcycle_id r = mid \<and> p_id r \<notin> set seen \<and> p_is_deleted r = 0 \<longrightarrow> p_url r \<noteq> []"
    note ok = markDeletedParts_ok [OF h, of e ts]
    note again = markDeletedParts_again [OF h, of e ts ts2]
    show "let ts' = (if ts \<noteq> [] then ts else local_time e);
            gone = (\<lambda>r. p_motorcycle_id r = mid \<and> p_id r \<notin> set seen \<and> p_is_deleted r = 0);
            w' = fst (markDeletedParts e w mid seen ts)
        in snd (markDeletedParts e w mid seen ts)
           \<and> parts w' =
               map (\<lambda>r. if gone r then r\<lparr>p_is_deleted := 1, p_deleted_at := Some ts'\<rparr> else r)
                 (parts w)
           \<and> parts_history w' =
               parts_history w @
                 map (\<lambda>r. deletedSnapshot mid ts' r (p_url r))
                   (sort_key (\<lambda>r. (p_name r, p_id r)) (filter gone (parts w)))
           \<and> (\<forall>r x. h_history_event (deletedSnapshot mid ts' r x) = ''deleted'' \<and>
                    h_part_id (deletedSnapshot mid ts' r x) = p_id r \<and>
                    h_is_deleted (deletedSnapshot mid ts' r x) = p_is_deleted r)
           \<and> motorcycles w' = motorcycles w \<and> part_images w' = part_images w
           \<and> markDeletedParts e w' mid seen ts2 = (w', True)"
      unfolding Let_def
      apply (intro conjI)
            apply (simp add: ok)
           apply (simp add: ok)
          apply (simp add: ok)
         apply (simp add: b)
        apply (simp add: ok)
       apply (simp add: ok)
      apply (rule again)
      done
  qed
  show ?thesis using a c by (rule conjI)
qed

theorem tombstone_reconciliation_witness:
  "list_all partInvariant (parts ex_world4)
   \<and> map p_is_deleted (parts (fst (markDeletedParts ex_env ex_world4 ''m1'' [''p1''] ''2026-01-04 12:00:00'')))
       = [0, 1, 1]
   \<and> map p_deleted_at (parts (fst (markDeletedParts ex_env ex_world4 ''m1'' [''p1''] ''2026-01-04 12:00:00'')))
       = [None, Some ''2026-01-04 12:00:00'', Some ''2026-01-02 12:00:00'']
   \<and> map h_part_id (parts_history (fst (markDeletedParts ex_env ex_world4 ''m1'' [''p1''] ''2026-01-04 12:00:00'')))
       = [''p2'']
   \<and> list_all partInvariant
        (parts (fst (markDeletedParts ex_env ex_world4 ''m1'' [''p1''] ''2026-01-04 12:00:00'')))"
proof -
  have i: "list_all partInvariant (parts ex_world4)"
    by (simp add: ex_world4_def partInvariant_def ex_row_def ex_row_deleted_def)
  have u: "\<forall>r \<in> set (parts ex_world4).
          p_motorcycle_id r = ''m1'' \<and> p_id r \<notin> set [''p1''] \<and> p_is_deleted r = 0 \<longrightarrow> p_url r \<noteq> []"
    by (simp add: ex_world4_def ex_row_def ex_row_deleted_def)
  note t = tombstone_reconciliation [of ex_world4 ex_env "''m1''"
        "''https://www.purkuosat.net/rs125.htm''" False "''2026-01-04 12:00:00''" "[''p1'']"
        ex_unnumbered "\<lambda>_. None" None
        "\<lparr>l_text = ''Aprilia RS 125'', l_href = ''https://www.purkuosat.net/rs125.htm'',
          l_category = ''motorcycles''\<rparr>" None "[ex_link]" "''2026-01-05 12:00:00''"]
  note t1 = t [THEN conjunct1, THEN mp, OF i]
  note t2 = t [THEN conjunct2, THEN mp, OF u, unfolded Let_def]
  have a: "list_all partInvariant
        (parts (fst (markDeletedParts ex_env ex_world4 ''m1'' [''p1''] ''2026-01-04 12:00:00'')))"
    using t1 by blast
  have b: "map p_is_deleted (parts (fst (markDeletedParts ex_env ex_world4 ''m1'' [''p1''] ''2026-01-04 12:00:00'')))
       = [0, 1, 1]"
    "map p_deleted_at (parts (fst (markDeletedParts ex_env ex_world4 ''m1'' [''p1''] ''2026-01-04 12:00:00'')))
       = [None, Some ''2026-01-04 12:00:00'', Some ''2026-01-02 12:00:00'']"
    unfolding t2 [THEN conjunct2, THEN conjunct1]
    by (simp_all add: ex_world4_def ex_row_def ex_row_deleted_def)
  have c: "map h_part_id (parts_history (fst (markDeletedParts ex_env ex_world4 ''m1'' [''p1''] ''2026-01-04 12:00:00'')))
       = [''p2'']"
    unfolding t2 [THEN conjunct2, THEN conjunct2, THEN conjunct1]
    by (simp add: ex_world4_def ex_row_def ex_row_deleted_def deletedSnapshot_def)
  show ?thesis using i a b c by blast
qed

section \<open>Identifiers\<close>




















lemma motorcycles_syncPartImages:
  "motorcycles (fst (syncPartImages e w pid urls dl)) = motorcycles w"
  by (rule syncPartImages_frame(3))










section \<open>Prices\<close>

text \<open>
  Prices as \<^verbatim>\<open>parseFloat\<close> reads them: a decimal that is a double is read as it is,
  one tenth as the double next to it, two long decimals that round to one double as
  the same price, and a decimal beyond the doubles as \<^verbatim>\<open>Infinity\<close>.
\<close>

lemma parsePrice_examples:
  "parsePrice ''45'' = 45"
  "parsePrice ''45,50'' = 91 / 2"
  "parsePrice ''0.1'' = 3602879701896397 / 36028797018963968"
  "parsePrice ''9007199254740993'' = 9007199254740992"
  "parsePrice ''9007199254740993'' = parsePrice ''9007199254740992''"
  "parsePrice (CHR ''2'' # replicate 308 CHR ''0'') = 2 ^ 1024"
  by code_simp+

section \<open>Which blocks give a part\<close>

lemma scanBlock_kept:
  "length (scanBlock e u t row blk) = 1 \<longleftrightarrow>
     blockName (cellTexts row) \<noteq> [] \<and> bf_price (blockFields blk) > 0"
  "scanBlock e u t row blk \<noteq> [] \<longleftrightarrow>
     blockName (cellTexts row) \<noteq> [] \<and> bf_price (blockFields blk) > 0"
  by (simp_all add: scanBlock_def Let_def)

lemma scanBlock_part:
  "blockName (cellTexts row) \<noteq> [] \<and> bf_price (blockFields blk) > 0 \<Longrightarrow>
   \<exists>p. scanBlock e u t row blk = [p] \<and> pt_name p = trim (blockName (cellTexts row)) \<and>
        pt_price p = bf_price (blockFields blk) \<and> pt_currency p = ''EUR''"
  by (simp add: scanBlock_def Let_def)

lemma trackParts_nothing: "trackParts e mid u dl ts w [] = (w, [])"
  by (simp add: trackParts_def)

lemma extractParts_append:
  "extractParts e u (a @ b) = extractParts e u a @ extractParts e u b"
  by (simp add: extractParts_def)

lemma extractParts_Cons:
  "extractParts e u (t # ts) = scanRows e u t (t_rows t) @ extractParts e u ts"
  by (simp add: extractParts_def)

lemma scanRows_skip:
  "(\<forall>r \<in> set pre. length (row_cells r) = 0 \<or> \<not> hasOsa (cellTexts r)) \<Longrightarrow>
   scanRows e u t (pre @ rows) = scanRows e u t rows"
  by (induction pre) auto

lemma isBlockEnd_start:
  "isBlockEnd r \<Longrightarrow> length (row_cells r) \<noteq> 0 \<and> hasOsa (cellTexts r)"
  by (auto simp: isBlockEnd_def hasOsa_def list_ex_iff)

lemma takeWhile_until:
  "\<not> P y \<Longrightarrow> takeWhile P (xs @ y # ys) = takeWhile P xs"
  by (induction xs) auto

lemma dropWhile_until:
  "\<not> P y \<Longrightarrow> dropWhile P (xs @ y # ys) = dropWhile P xs @ y # ys"
  by (induction xs) auto

lemma scanRows_at_end:
  "isBlockEnd row \<Longrightarrow>
   scanRows e u t (before @ row # rest) = scanRows e u t before @ scanRows e u t (row # rest)"
proof (induction e u t before rule: scanRows.induct)
  case (1 e pageUrl table)
  show ?case by simp
next
  case (2 e pageUrl table r rs)
  have tw: "takeWhile (\<lambda>r. \<not> isBlockEnd r) (rs @ row # rest) = takeWhile (\<lambda>r. \<not> isBlockEnd r) rs"
    using 2(4) by (simp add: takeWhile_until)
  have dw: "dropWhile (\<lambda>r. \<not> isBlockEnd r) (rs @ row # rest) =
            dropWhile (\<lambda>r. \<not> isBlockEnd r) rs @ row # rest"
    using 2(4) by (simp add: dropWhile_until)
  show ?case
  proof (cases "length (row_cells r) = 0")
    case True
    then show ?thesis using 2(1) [OF True 2(4)] by simp
  next
    case False
    show ?thesis
    proof (cases "hasOsa (cellTexts r)")
      case True
      show ?thesis
        using False True 2(2) [OF False True 2(4)]
        by (simp add: tw dw)
    next
      case h: False
      show ?thesis
        using False h 2(3) [OF False h 2(4)] by simp
    qed
  qed
qed

lemma trim_idem: "trim (trim s) = trim s"
proof (cases "dropWhile isSpace s")
  case Nil
  have t: "trim s = []" unfolding trim_def Nil by simp
  show ?thesis unfolding t by (simp add: trim_def)
next
  case (Cons x a)
  have nx: "\<not> isSpace x" using Cons by (metis hd_dropWhile list.sel(1) list.distinct(1))
  have b: "trim s = x # rev (dropWhile isSpace (rev a))"
    unfolding trim_def Cons using nx by (simp add: dropWhile_append3)
  have "dropWhile isSpace (rev (trim s)) = rev (trim s)"
    by (simp add: trim_def)
  moreover have "dropWhile isSpace (trim s) = trim s" using nx by (simp add: b)
  ultimately show ?thesis
    by (simp add: trim_def [of "trim s"])
qed

lemma cleanText_trim: "trim (cleanText v) = cleanText v"
  by (simp add: cleanText_def trim_idem)

lemma find_in_set: "find P xs = Some x \<Longrightarrow> x \<in> set xs"
  by (induction xs) (auto split: if_splits)

lemma blockName_cases: "blockName texts = [] \<or> blockName texts \<in> set texts"
proof (cases "find (\<lambda>t. t \<noteq> [] \<and> \<not> list_all (\<lambda>c. c = CHR ''-'') t) (rev texts)")
  case None
  then show ?thesis by (simp add: blockName_def)
next
  case (Some t)
  then have "t \<in> set (rev texts)" by (rule find_in_set)
  then show ?thesis using Some by (simp add: blockName_def)
qed

lemma scanBlock_sound:
  assumes "p \<in> set (scanBlock e u t row blk)"
  shows "pt_name p = blockName (cellTexts row) \<and> pt_name p \<noteq> [] \<and>
         pt_price p = bf_price (blockFields blk) \<and> 0 < pt_price p"
proof -
  have k: "blockName (cellTexts row) \<noteq> []" "0 < bf_price (blockFields blk)"
    using assms by (auto simp: scanBlock_def Let_def split: if_splits)
  have "blockName (cellTexts row) \<in> set (cellTexts row)"
    using blockName_cases [of "cellTexts row"] k by simp
  then have "trim (blockName (cellTexts row)) = blockName (cellTexts row)"
    by (auto simp: cellTexts_def cleanText_trim)
  then show ?thesis using assms k by (auto simp: scanBlock_def Let_def)
qed

lemma scanRows_sound:
  "p \<in> set (scanRows e u t rows) \<Longrightarrow> pt_name p \<noteq> [] \<and> 0 < pt_price p"
proof (induction e u t rows rule: scanRows.induct)
  case (1 e pageUrl table)
  then show ?case by simp
next
  case (2 e pageUrl table row rest)
  show ?case
  proof (cases "length (row_cells row) = 0")
    case True
    then show ?thesis using 2(1) [OF True] 2(4) by simp
  next
    case False
    show ?thesis
    proof (cases "hasOsa (cellTexts row)")
      case True
      have "p \<in> set (scanBlock e pageUrl table row (takeWhile (\<lambda>r. \<not> isBlockEnd r) rest)) \<or>
            p \<in> set (scanRows e pageUrl table (dropWhile (\<lambda>r. \<not> isBlockEnd r) rest))"
        using 2(4) False True by simp
      then show ?thesis
      proof
        assume "p \<in> set (scanBlock e pageUrl table row (takeWhile (\<lambda>r. \<not> isBlockEnd r) rest))"
        from scanBlock_sound [OF this] show ?thesis by blast
      next
        assume "p \<in> set (scanRows e pageUrl table (dropWhile (\<lambda>r. \<not> isBlockEnd r) rest))"
        then show ?thesis by (rule 2(2) [OF False True])
      qed
    next
      case h: False
      then show ?thesis using False 2(3) [OF False h] 2(4) by simp
    qed
  qed
qed

lemma extractParts_sound:
  "p \<in> set (extractParts e u pg) \<Longrightarrow> pt_name p \<noteq> [] \<and> 0 < pt_price p"
  by (auto simp: extractParts_def scanRows_sound)

text \<open>
  Claim C4. The parts of a page are those of its tables, one table after the other,
  and every block of every table is reached: at a row that starts a block, be it
  the first such row of its table or a row with a cell that reads OSA, the page
  gives what the rows before it give, then what the block gives, then what the rows
  from the next block start on give. The block gives one part record exactly when
  its name is not empty and its price is greater than zero, and that record has the
  name and the price; otherwise it gives nothing, and the page gives what it gives
  without the block. Rows that start no block give nothing. Every record of a page
  has a name that is not empty and a price greater than zero. Extraction is a total
  function of the page and writes nothing: a page whose blocks all give nothing
  leaves the world, the lines of \<^verbatim>\<open>console.error\<close> included, as it was. (Merging
  the records that share a key, lines 411-422, is a later step.)
\<close>

theorem candidate_kept_iff:
  "(t_rows t = before @ row # rest \<and>
    (isBlockEnd row \<or>
     ((\<forall>r \<in> set before. length (row_cells r) = 0 \<or> \<not> hasOsa (cellTexts r)) \<and>
      length (row_cells row) \<noteq> 0 \<and> hasOsa (cellTexts row))) \<longrightarrow>
    (let blk = takeWhile (\<lambda>r. \<not> isBlockEnd r) rest;
         after = dropWhile (\<lambda>r. \<not> isBlockEnd r) rest;
         name = blockName (cellTexts row);
         price = bf_price (blockFields blk)
     in extractParts e u (ts1 @ t # ts2) =
          extractParts e u ts1 @ scanRows e u t before @ scanBlock e u t row blk @
          scanRows e u t after @ extractParts e u ts2
        \<and> (length (scanBlock e u t row blk) = 1 \<longleftrightarrow> name \<noteq> [] \<and> price > 0)
        \<and> (name \<noteq> [] \<and> price > 0 \<longrightarrow>
             (\<exists>p. scanBlock e u t row blk = [p] \<and> pt_name p = name \<and> pt_price p = price))
        \<and> (\<not> (name \<noteq> [] \<and> price > 0) \<longrightarrow>
             scanBlock e u t row blk = [] \<and>
             extractParts e u (ts1 @ t # ts2) =
               extractParts e u ts1 @ scanRows e u t before @ scanRows e u t after @
               extractParts e u ts2)))
   \<and> ((\<forall>r \<in> set rows. length (row_cells r) = 0 \<or> \<not> hasOsa (cellTexts r)) \<longrightarrow>
        scanRows e u t rows = [])
   \<and> extractParts e u [] = []
   \<and> (\<forall>p \<in> set (extractParts e u pg). pt_name p \<noteq> [] \<and> pt_price p > 0)
   \<and> (extractParts e u pg0 = [] \<longrightarrow> scrapeParts e w pg0 mid u dl ts = (w, []))"
proof -
  let ?blk = "takeWhile (\<lambda>r. \<not> isBlockEnd r) rest"
  let ?after = "dropWhile (\<lambda>r. \<not> isBlockEnd r) rest"
  have reach: "extractParts e u (ts1 @ t # ts2) =
          extractParts e u ts1 @ scanRows e u t before @ scanBlock e u t row ?blk @
          scanRows e u t ?after @ extractParts e u ts2"
    if r: "t_rows t = before @ row # rest"
      and c: "isBlockEnd row \<or>
        ((\<forall>r \<in> set before. length (row_cells r) = 0 \<or> \<not> hasOsa (cellTexts r)) \<and>
         length (row_cells row) \<noteq> 0 \<and> hasOsa (cellTexts row))"
  proof -
    have s: "length (row_cells row) \<noteq> 0 \<and> hasOsa (cellTexts row)"
      using c isBlockEnd_start by blast
    have b: "scanRows e u t (row # rest) = scanBlock e u t row ?blk @ scanRows e u t ?after"
      using s by simp
    have ap: "scanRows e u t (before @ row # rest) = scanRows e u t before @ scanRows e u t (row # rest)"
      using c
    proof
      assume "isBlockEnd row"
      then show ?thesis by (rule scanRows_at_end)
    next
      assume a: "(\<forall>r \<in> set before. length (row_cells r) = 0 \<or> \<not> hasOsa (cellTexts r)) \<and>
         length (row_cells row) \<noteq> 0 \<and> hasOsa (cellTexts row)"
      then have "scanRows e u t (before @ row # rest) = scanRows e u t (row # rest)"
        by (simp add: scanRows_skip)
      moreover have "scanRows e u t before = []"
        using a scanRows_skip [of before e u t "[]"] by simp
      ultimately show ?thesis by simp
    qed
    show ?thesis
      unfolding extractParts_append extractParts_Cons r ap b by simp
  qed
  have kept: "length (scanBlock e u t row ?blk) = 1 \<longleftrightarrow>
      blockName (cellTexts row) \<noteq> [] \<and> bf_price (blockFields ?blk) > 0"
    by (rule scanBlock_kept(1))
  have part: "\<exists>p. scanBlock e u t row ?blk = [p] \<and> pt_name p = blockName (cellTexts row) \<and>
        pt_price p = bf_price (blockFields ?blk)"
    if k: "blockName (cellTexts row) \<noteq> [] \<and> bf_price (blockFields ?blk) > 0"
  proof -
    obtain p where p: "scanBlock e u t row ?blk = [p]"
      using scanBlock_part [OF k, of e u t] by blast
    then have "p \<in> set (scanBlock e u t row ?blk)" by simp
    from scanBlock_sound [OF this] p show ?thesis by blast
  qed
  have none: "scanBlock e u t row ?blk = []"
    if "\<not> (blockName (cellTexts row) \<noteq> [] \<and> bf_price (blockFields ?blk) > 0)"
    using that scanBlock_kept(2) [of e u t row ?blk] by blast
  have skip: "scanRows e u t rows = []"
    if "\<forall>r \<in> set rows. length (row_cells r) = 0 \<or> \<not> hasOsa (cellTexts r)"
    using that scanRows_skip [of rows e u t "[]"] by simp
  have x: "extractParts e u pg0 = [] \<longrightarrow> scrapeParts e w pg0 mid u dl ts = (w, [])"
    by (simp add: scrapeParts_def uniqueParts_def trackParts_def)
  have snd: "\<forall>p \<in> set (extractParts e u pg). pt_name p \<noteq> [] \<and> pt_price p > 0"
    using extractParts_sound by blast
  have e0: "extractParts e u [] = []" by (simp add: extractParts_def)
  have main: "(t_rows t = before @ row # rest \<and>
    (isBlockEnd row \<or>
     ((\<forall>r \<in> set before. length (row_cells r) = 0 \<or> \<not> hasOsa (cellTexts r)) \<and>
      length (row_cells row) \<noteq> 0 \<and> hasOsa (cellTexts row))) \<longrightarrow>
    (let blk = takeWhile (\<lambda>r. \<not> isBlockEnd r) rest;
         after = dropWhile (\<lambda>r. \<not> isBlockEnd r) rest;
         name = blockName (cellTexts row);
         price = bf_price (blockFields blk)
     in extractParts e u (ts1 @ t # ts2) =
          extractParts e u ts1 @ scanRows e u t before @ scanBlock e u t row blk @
          scanRows e u t after @ extractParts e u ts2
        \<and> (length (scanBlock e u t row blk) = 1 \<longleftrightarrow> name \<noteq> [] \<and> price > 0)
        \<and> (name \<noteq> [] \<and> price > 0 \<longrightarrow>
             (\<exists>p. scanBlock e u t row blk = [p] \<and> pt_name p = name \<and> pt_price p = price))
        \<and> (\<not> (name \<noteq> [] \<and> price > 0) \<longrightarrow>
             scanBlock e u t row blk = [] \<and>
             extractParts e u (ts1 @ t # ts2) =
               extractParts e u ts1 @ scanRows e u t before @ scanRows e u t after @
               extractParts e u ts2)))"
    unfolding Let_def
  proof (intro impI conjI)
    assume h: "t_rows t = before @ row # rest \<and>
      (isBlockEnd row \<or>
       ((\<forall>r \<in> set before. length (row_cells r) = 0 \<or> \<not> hasOsa (cellTexts r)) \<and>
        length (row_cells row) \<noteq> 0 \<and> hasOsa (cellTexts row)))"
    show "extractParts e u (ts1 @ t # ts2) =
          extractParts e u ts1 @ scanRows e u t before @ scanBlock e u t row ?blk @
          scanRows e u t ?after @ extractParts e u ts2"
      using h reach by blast
    show "length (scanBlock e u t row ?blk) = 1 \<longleftrightarrow>
      blockName (cellTexts row) \<noteq> [] \<and> bf_price (blockFields ?blk) > 0"
      by (rule kept)
    show "\<exists>p. scanBlock e u t row ?blk = [p] \<and> pt_name p = blockName (cellTexts row) \<and>
        pt_price p = bf_price (blockFields ?blk)"
      if "blockName (cellTexts row) \<noteq> [] \<and> bf_price (blockFields ?blk) > 0"
      using that by (rule part)
    show "scanBlock e u t row ?blk = []"
      if "\<not> (blockName (cellTexts row) \<noteq> [] \<and> bf_price (blockFields ?blk) > 0)"
      using that by (rule none)
    show "extractParts e u (ts1 @ t # ts2) =
               extractParts e u ts1 @ scanRows e u t before @ scanRows e u t ?after @
               extractParts e u ts2"
      if "\<not> (blockName (cellTexts row) \<noteq> [] \<and> bf_price (blockFields ?blk) > 0)"
      using reach h none [OF that] by simp
  qed
  show ?thesis
    using main skip e0 snd x by blast
qed

theorem candidate_kept_iff_witness:
  "t_rows ex_listing = [hd (t_rows ex_listing)] @ (t_rows ex_listing ! 1) # drop 2 (t_rows ex_listing)
   \<and> \<not> hasOsa (cellTexts (hd (t_rows ex_listing)))
   \<and> \<not> isBlockEnd (t_rows ex_listing ! 1)
   \<and> length (row_cells (t_rows ex_listing ! 1)) \<noteq> 0 \<and> hasOsa (cellTexts (t_rows ex_listing ! 1))
   \<and> blockName (cellTexts (t_rows ex_listing ! 1)) = ''Mirror''
   \<and> bf_price (blockFields (takeWhile (\<lambda>r. \<not> isBlockEnd r) (drop 2 (t_rows ex_listing)))) = 0
   \<and> extractParts ex_env ''https://www.purkuosat.net/rs125.htm'' [ex_listing] =
       [\<lparr>pt_name = ''Tank'', pt_partNumber = ''12345'', pt_description = ''small dent'',
         pt_price = 91 / 2, pt_currency = ''EUR'', pt_imageUrl = None, pt_imageUrls = []\<rparr>]
   \<and> extractParts ex_env ''https://www.purkuosat.net/rs125.htm'' [] = []
   \<and> scrapeParts ex_env ex_world [] ''m1'' ''https://www.purkuosat.net/rs125.htm'' False
         ''2026-01-03 12:00:00'' = (ex_world, [])"
proof -
  let ?u = "''https://www.purkuosat.net/rs125.htm''"
  let ?h = "hd (t_rows ex_listing)"
  let ?row = "t_rows ex_listing ! 1"
  let ?rest = "drop 2 (t_rows ex_listing)"
  have r: "t_rows ex_listing = [?h] @ ?row # ?rest" by (simp add: ex_listing_def)
  have h: "\<not> hasOsa (cellTexts ?h)" by code_simp
  have b: "\<not> isBlockEnd ?row" by code_simp
  have s: "length (row_cells ?row) \<noteq> 0 \<and> hasOsa (cellTexts ?row)" by code_simp
  have n: "blockName (cellTexts ?row) = ''Mirror''" by code_simp
  have p: "bf_price (blockFields (takeWhile (\<lambda>r. \<not> isBlockEnd r) ?rest)) = 0" by code_simp
  have a: "dropWhile (\<lambda>r. \<not> isBlockEnd r) ?rest = drop 4 (t_rows ex_listing)" by code_simp
  have k: "scanRows ex_env ?u ex_listing (drop 4 (t_rows ex_listing)) =
       [\<lparr>pt_name = ''Tank'', pt_partNumber = ''12345'', pt_description = ''small dent'',
         pt_price = 91 / 2, pt_currency = ''EUR'', pt_imageUrl = None, pt_imageUrls = []\<rparr>]"
    by code_simp
  have f: "\<forall>r \<in> set [?h]. length (row_cells r) = 0 \<or> \<not> hasOsa (cellTexts r)"
    using h by simp
  note t = candidate_kept_iff [where t = ex_listing and before = "[?h]" and row = ?row
      and rest = ?rest and e = ex_env and u = ?u and ?ts1.0 = "[]" and ?ts2.0 = "[]"
      and rows = "[?h]" and pg = "[ex_listing]" and ?pg0.0 = "[]" and w = ex_world
      and mid = "''m1''" and dl = False and ts = "''2026-01-03 12:00:00''"]
  note t1 = t [THEN conjunct1, THEN mp, OF conjI [OF r disjI2 [OF conjI [OF f s]]], unfolded Let_def]
  note t2 = t [THEN conjunct2, THEN conjunct1, THEN mp, OF f]
  note t3 = t [THEN conjunct2, THEN conjunct2, THEN conjunct1]
  note t5 = t [THEN conjunct2, THEN conjunct2, THEN conjunct2, THEN conjunct2, THEN mp, OF t3]
  have d: "\<not> (blockName (cellTexts ?row) \<noteq> [] \<and>
        bf_price (blockFields (takeWhile (\<lambda>r. \<not> isBlockEnd r) ?rest)) > 0)"
    using p by simp
  have "extractParts ex_env ?u ([] @ ex_listing # []) =
      extractParts ex_env ?u [] @ scanRows ex_env ?u ex_listing [?h] @
      scanRows ex_env ?u ex_listing (dropWhile (\<lambda>r. \<not> isBlockEnd r) ?rest) @
      extractParts ex_env ?u []"
    using t1 [THEN conjunct2, THEN conjunct2, THEN conjunct2, THEN mp, OF d] by blast
  then have x: "extractParts ex_env ?u [ex_listing] =
       [\<lparr>pt_name = ''Tank'', pt_partNumber = ''12345'', pt_description = ''small dent'',
         pt_price = 91 / 2, pt_currency = ''EUR'', pt_imageUrl = None, pt_imageUrls = []\<rparr>]"
    unfolding t2 t3 a k by simp
  show ?thesis using r h b s n p x t3 t5 by blast
qed

section \<open>Three passes over a part without a part number\<close>

lemma ex_extract_unnumbered:
  "extractParts e u ex_page_unnumbered = [ex_unnumbered]"
  unfolding ex_page_unnumbered_def ex_unnumbered_def by code_simp

lemma ex_extract_nothing: "extractParts e u [] = []"
  by (simp add: extractParts_def)

lemma ex_link_allowed:
  "extractBrandModel (l_text ex_link) = (''Aprilia'', ''RS 125'')"
  "matchesAllowedFilter (normalizeFilterList None) t b m"
  by (code_simp, simp add: normalizeFilterList_def matchesAllowedFilter_def)

lemma uniqueParts_one: "uniqueParts [p] = [p\<lparr>pt_imageUrls := uniq (pt_imageUrls p)\<rparr>]"
  by (simp add: uniqueParts_def mergePart_def)

lemma resolveMotorcycle_rest:
  "errors (snd (resolveMotorcycle e w lnk url b m)) = errors w"
  "began (snd (resolveMotorcycle e w lnk url b m)) = began w"
  "files (snd (resolveMotorcycle e w lnk url b m)) = files w"
  "part_images (snd (resolveMotorcycle e w lnk url b m)) = part_images w"
  by (simp_all add: resolveMotorcycle_def Let_def split: option.splits)

lemma pass_unnumbered:
  assumes "parts w = []"
  shows "parts (scrapeMotorcyclePage e (\<lambda>_. Some ex_page_unnumbered) None w ex_link None True ts) = []"
    "parts_history (scrapeMotorcyclePage e (\<lambda>_. Some ex_page_unnumbered) None w ex_link None True ts) = parts_history w"
    "errors (scrapeMotorcyclePage e (\<lambda>_. Some ex_page_unnumbered) None w ex_link None True ts) = errors w"
  using assms
  by (simp_all add: scrapeMotorcyclePage_def aborted_def fetchObserving_def Let_def ex_link_allowed
      scrapeParts_def ex_extract_unnumbered uniqueParts_one trackParts_def trackPart_def
      ex_unnumbered_def insertPart_def orNull_def split_beta resolveMotorcycle_parts resolveMotorcycle_rest
      markDeletedParts_def deletedRows_def uniq_def)

lemma pass_empty_page:
  assumes "parts w = []"
  shows "parts (scrapeMotorcyclePage e (\<lambda>_. Some []) None w ex_link None True ts) = []"
    "parts_history (scrapeMotorcyclePage e (\<lambda>_. Some []) None w ex_link None True ts) = parts_history w"
    "errors (scrapeMotorcyclePage e (\<lambda>_. Some []) None w ex_link None True ts) = errors w"
  using assms
  by (simp_all add: scrapeMotorcyclePage_def aborted_def fetchObserving_def Let_def ex_link_allowed
      scrapeParts_def ex_extract_nothing uniqueParts_def trackParts_def split_beta resolveMotorcycle_parts resolveMotorcycle_rest
      markDeletedParts_def deletedRows_def)

text \<open>
  Claim C2 at a part without a part number. The page shows the part in the first
  pass, not in the second, and again in the third. Every insert of the part fails on
  the \<^verbatim>\<open>NOT NULL\<close> part number and is ignored: after each pass no part is stored and
  the history is empty, so the second pass records no \<^verbatim>\<open>deleted\<close> event and the third
  no \<^verbatim>\<open>restored\<close> event; nothing is written with \<^verbatim>\<open>console.error\<close>.
\<close>

theorem unnumbered_part_roundtrip:
  "(let w1 = scrapeMotorcyclePage e (\<lambda>_. Some ex_page_unnumbered) None ex_empty ex_link None True
               ''2026-01-01 12:00:00'';
        w2 = scrapeMotorcyclePage e (\<lambda>_. Some []) None w1 ex_link None True
               ''2026-01-02 12:00:00'';
        w3 = scrapeMotorcyclePage e (\<lambda>_. Some ex_page_unnumbered) None w2 ex_link None True
               ''2026-01-03 12:00:00''
    in extractParts e (normalizeModelUrl e (l_href ex_link)) ex_page_unnumbered = [ex_unnumbered]
       \<and> parts w1 = [] \<and> parts w2 = [] \<and> parts w3 = []
       \<and> parts_history w2 = [] \<and> parts_history w3 = []
       \<and> errors w3 = [])"
proof -
  have e0: "parts ex_empty = []" "parts_history ex_empty = []" "errors ex_empty = []"
    by (simp_all add: ex_empty_def)
  show ?thesis
    unfolding Let_def
    by (simp add: ex_extract_unnumbered pass_unnumbered pass_empty_page e0)
qed


section \<open>Two passes over an unchanged page\<close>

lemma ex_extract_pictured:
  "extractParts e u ex_page_pictured =
     [ex_plain\<lparr>pt_imageUrl := Some ex_url_a,
               pt_imageUrls := [ex_url_a]\<rparr>]"
  unfolding ex_page_pictured_def ex_plain_def ex_url_a_def by code_simp

lemma ex_extract_plain: "extractParts e u ex_page_plain = [ex_plain]"
  unfolding ex_page_plain_def ex_plain_def by code_simp

lemma ex_pictured_first_pass:
  "scrapeMotorcyclePage e (\<lambda>_. Some ex_page_pictured) None ex_empty ex_link None False
     ''2026-01-01 12:00:00'' =
   \<lparr>motorcycles =
      [\<lparr>m_id = generateId (md5 e) ''Aprilia-RS 125'', m_brand = ''Aprilia'', m_model = ''RS 125'',
        m_category = ''motorcycles'', m_url = normalizeModelUrl e (l_href ex_link)\<rparr>],
    parts =
      [\<lparr>p_id = generateId (md5 e) (generateId (md5 e) ''Aprilia-RS 125'' @ ''-12345''),
        p_motorcycle_id = generateId (md5 e) ''Aprilia-RS 125'', p_name = ''Tank'',
        p_part_number = ''12345'', p_description = Some [], p_price = Some 45,
        p_currency = Some ''EUR'',
        p_image_url = Some ex_url_a, p_image_path = None,
        p_url = normalizeModelUrl e (l_href ex_link),
        p_scraped_at = Some ''2026-01-01 12:00:00'', p_last_seen = Some ''2026-01-01 12:00:00'',
        p_is_deleted = 0, p_deleted_at = None\<rparr>],
    parts_history = [],
    part_images =
      [\<lparr>i_part_id = generateId (md5 e) (generateId (md5 e) ''Aprilia-RS 125'' @ ''-12345''),
        i_image_url = ex_url_a, i_image_path = None,
        i_sort_order = 0\<rparr>],
    files = (\<lambda>_. None),
    began = [FetchPage (normalizeModelUrl e (l_href ex_link))], errors = []\<rparr>"
proof -
  have c: "l_category ex_link = ''motorcycles''" "ex_url_a \<noteq> []"
    by (simp_all add: ex_link_def ex_url_a_def)
  show ?thesis
    apply (simp add: scrapeMotorcyclePage_def aborted_def fetchObserving_def Let_def ex_link_allowed
      resolveScrapeTimestamp_def resolveMotorcycle_def ex_empty_def c
      scrapeParts_def ex_extract_pictured uniqueParts_one)
    apply (simp add: trackParts_def trackPart_def Let_def ex_plain_def c
      insertPart_def orNull_def orEmpty_def truthy_def syncPartImages_def uniq_def
      insertImageOrIgnore_def finalizePart_def
      storedImagePath_def markDeletedParts_def deletedRows_def unseenLive_def)
    done
qed

text \<open>
  Claim C1 at a part whose image has left the page. The first pass stores the part
  with its image URL. The page then shows the part without an image, and is
  processed twice as it is. Each of the two passes finds the stored image URL
  different from the empty one of the page (line 484), writes a history row, and
  stores the old image URL again (line 526): the second pass over the unchanged page
  adds one history row. The last-seen time of the part is that of the second pass.
\<close>

theorem unchanged_page_adds_history:
  "(let w0 = scrapeMotorcyclePage e (\<lambda>_. Some ex_page_pictured) None ex_empty ex_link None False
               ''2026-01-01 12:00:00'';
        w1 = scrapeMotorcyclePage e (\<lambda>_. Some ex_page_plain) None w0 ex_link None False
               ''2026-01-02 12:00:00'';
        w2 = scrapeMotorcyclePage e (\<lambda>_. Some ex_page_plain) None w1 ex_link None False
               ''2026-01-03 12:00:00''
    in parts_history w0 = []
       \<and> map (\<lambda>h. (h_part_number h, h_image_url h, h_history_event h, h_recorded_at h))
             (parts_history w1) =
           [(''12345'', Some ex_url_a, ''updated'',
             ''2026-01-02 12:00:00'')]
       \<and> map (\<lambda>h. (h_part_number h, h_image_url h, h_history_event h, h_recorded_at h))
             (parts_history w2) =
           [(''12345'', Some ex_url_a, ''updated'',
             ''2026-01-02 12:00:00''),
            (''12345'', Some ex_url_a, ''updated'',
             ''2026-01-03 12:00:00'')]
       \<and> length (parts_history w2) = length (parts_history w1) + 1
       \<and> map (\<lambda>r. (p_part_number r, p_image_url r, p_last_seen r, p_is_deleted r)) (parts w2) =
           [(''12345'', Some ex_url_a,
             Some ''2026-01-03 12:00:00'', 0)])"
proof -
  have c: "l_category ex_link = ''motorcycles''" "ex_url_a \<noteq> []"
    by (simp_all add: ex_link_def ex_url_a_def)
  show ?thesis
    unfolding Let_def ex_pictured_first_pass
    apply (simp add: scrapeMotorcyclePage_def aborted_def fetchObserving_def Let_def ex_link_allowed
      resolveScrapeTimestamp_def resolveMotorcycle_def c
      scrapeParts_def ex_extract_plain uniqueParts_one)
    apply (simp add: trackParts_def trackPart_def Let_def ex_plain_def c
      insertPart_def orNull_def orEmpty_def truthy_def syncPartImages_def uniq_def
      finalizePart_def storedImagePath_def updateExisting_def changedFields_def
      historyImagePath_def primaryImageBackup_def markDeletedParts_def deletedRows_def unseenLive_def)
    done
qed


section \<open>Calls that begin after the cancellation\<close>

text \<open>
  Claim C9 at a page with one part and one image, the signal firing once the page
  has been fetched. The probe and the download of the image begin all the same:
  \<^verbatim>\<open>downloadImage\<close> is given no signal and nothing checks it between the images. A
  signal that has fired before the page is fetched keeps every call from beginning,
  and in the walk over the links the delay after the page and the next page do not
  begin.
\<close>

theorem image_calls_after_abort:
  "began (scrapeMotorcyclePage ex_env (\<lambda>_. Some ex_page_pictured) (Some 1) ex_empty ex_link None
            True ''2026-01-01 12:00:00'') =
     [FetchPage ''https://www.purkuosat.net/rs125.htm'', ProbeImage ex_url_a, DownloadImage ex_url_a]
   \<and> aborted (Some 1) (ex_empty\<lparr>began := [FetchPage ''https://www.purkuosat.net/rs125.htm'']\<rparr>)
   \<and> began (scrapeMotorcyclePage ex_env (\<lambda>_. Some ex_page_pictured) (Some 0) ex_empty ex_link None
            True ''2026-01-01 12:00:00'') = []
   \<and> began (fst (scrapeLinks ex_env (\<lambda>_. Some ex_page_pictured) (Some 1) None True
            ''2026-01-01 12:00:00'' [ex_link, ex_link] ex_empty)) =
     [FetchPage ''https://www.purkuosat.net/rs125.htm'', ProbeImage ex_url_a, DownloadImage ex_url_a]
   \<and> \<not> snd (scrapeLinks ex_env (\<lambda>_. Some ex_page_pictured) (Some 1) None True
            ''2026-01-01 12:00:00'' [ex_link, ex_link] ex_empty)"
proof -
  have c: "l_category ex_link = ''motorcycles''" "ex_url_a \<noteq> []"
    "l_href ex_link = ''https://www.purkuosat.net/rs125.htm''"
    by (simp_all add: ex_link_def ex_url_a_def)
  have n: "normalizeModelUrl ex_env ''https://www.purkuosat.net/rs125.htm'' =
      ''https://www.purkuosat.net/rs125.htm''"
    by code_simp
  have a: "began (scrapeMotorcyclePage ex_env (\<lambda>_. Some ex_page_pictured) (Some 1) ex_empty ex_link None
            True ''2026-01-01 12:00:00'') =
     [FetchPage ''https://www.purkuosat.net/rs125.htm'', ProbeImage ex_url_a, DownloadImage ex_url_a]"
    apply (simp add: scrapeMotorcyclePage_def aborted_def fetchObserving_def Let_def ex_link_allowed
      resolveScrapeTimestamp_def resolveMotorcycle_def ex_empty_def c n
      scrapeParts_def ex_extract_pictured uniqueParts_one)
    apply (simp add: trackParts_def trackPart_def Let_def ex_plain_def c
      insertPart_def orNull_def orEmpty_def truthy_def syncPartImages_def uniq_def
      downloadImage_def ex_paths ex_env_net
      insertImageOrIgnore_def updateImagePath_def finalizePart_def
      storedImagePath_def markDeletedParts_def deletedRows_def unseenLive_def)
    done
  have b: "aborted (Some 1) (ex_empty\<lparr>began := [FetchPage ''https://www.purkuosat.net/rs125.htm'']\<rparr>)"
    by (simp add: aborted_def)
  have d: "began (scrapeMotorcyclePage ex_env (\<lambda>_. Some ex_page_pictured) (Some 0) ex_empty ex_link None
            True ''2026-01-01 12:00:00'') = []"
    by (simp add: scrapeMotorcyclePage_def aborted_def Let_def ex_empty_def)
  have l: "linkAllowed None (l_text ex_link)"
    by (simp add: linkAllowed_def ex_link_allowed)
  have f: "began (fst (scrapeLinks ex_env (\<lambda>_. Some ex_page_pictured) (Some 1) None True
            ''2026-01-01 12:00:00'' [ex_link, ex_link] ex_empty)) =
     [FetchPage ''https://www.purkuosat.net/rs125.htm'', ProbeImage ex_url_a, DownloadImage ex_url_a]"
    "\<not> snd (scrapeLinks ex_env (\<lambda>_. Some ex_page_pictured) (Some 1) None True
            ''2026-01-01 12:00:00'' [ex_link, ex_link] ex_empty)"
  proof -
    have ab0: "\<not> aborted (Some 1) ex_empty" by (simp add: aborted_def ex_empty_def)
    have ab1: "aborted (Some 1) (scrapeMotorcyclePage ex_env (\<lambda>_. Some ex_page_pictured) (Some 1)
        ex_empty ex_link None True ''2026-01-01 12:00:00'')"
      unfolding aborted_def a by simp
    show "began (fst (scrapeLinks ex_env (\<lambda>_. Some ex_page_pictured) (Some 1) None True
            ''2026-01-01 12:00:00'' [ex_link, ex_link] ex_empty)) =
     [FetchPage ''https://www.purkuosat.net/rs125.htm'', ProbeImage ex_url_a, DownloadImage ex_url_a]"
      unfolding scrapeLinks.simps Let_def waitOrAbort_def using l ab0 ab1 a by simp
    show "\<not> snd (scrapeLinks ex_env (\<lambda>_. Some ex_page_pictured) (Some 1) None True
            ''2026-01-01 12:00:00'' [ex_link, ex_link] ex_empty)"
      unfolding scrapeLinks.simps Let_def waitOrAbort_def using l ab0 ab1 by simp
  qed
  show ?thesis using a b d f by simp
qed

end
